theory Spec2Isabelle
  imports Complex_Main
begin

section \<open>Utility functions (util.ts)\<close>

text \<open>
  Arrays are lists. \<open>eqArrays\<close> compares lengths and then the elements index by index;
  the elements compared here are bits, so the nested-array branch of the source is the
  plain equality of the elements.
\<close>

definition eqArrays :: "'a list \<Rightarrow> 'a list \<Rightarrow> bool" where
  "eqArrays xs ys =
     (length xs = length ys \<and> list_all (\<lambda>i. xs ! i = ys ! i) [0..<length xs])"

text \<open>\<open>buildArray(size)\<close> is only ever mapped over: its model is the list of its indexes.\<close>

definition buildArray :: "nat \<Rightarrow> nat list" where
  "buildArray n = [0..<n]"

definition repeat :: "'a \<Rightarrow> nat \<Rightarrow> 'a list" where
  "repeat x n = map (\<lambda>_. x) (buildArray n)"

text \<open>
  \<open>chunksOf\<close> builds the chunk numbers, turns them into indexes and reads the array at
  each index. Every index it builds is below the length of \<open>xs\<close> when \<open>0 < n\<close>. With
  \<open>n = 0\<close> the source fails in \<open>Array(Infinity)\<close>; its only caller passes 2.
\<close>

definition chunksOf :: "nat \<Rightarrow> 'a list \<Rightarrow> 'a list list" where
  "chunksOf n xs =
     (let size_n = length xs div n;
          initialChunks = map (\<lambda>idx. repeat idx n) (buildArray size_n);
          extraChunks = repeat (length initialChunks) (length xs mod n);
          chunks = (if length extraChunks > 0 then initialChunks @ [extraChunks]
                    else initialChunks);
          indexes = map (\<lambda>chunk.
                      map (\<lambda>(chunkNum, idx). chunkNum * n + idx)
                        (zip chunk [0..<length chunk])) chunks
      in map (\<lambda>chunk. map (\<lambda>idx. xs ! idx) chunk) indexes)"

definition zip_arrays :: "'a list \<Rightarrow> 'b list \<Rightarrow> ('a \<times> 'b) list" where
  "zip_arrays xs ys =
     (if length xs \<le> length ys
      then foldl (\<lambda>acc i. acc @ [(xs ! i, ys ! i)]) [] [0..<length xs]
      else foldl (\<lambda>acc i. acc @ [(xs ! i, ys ! i)]) [] [0..<length ys])"

text \<open>\<open>scan\<close> is only called on a list it can take the last element of: the accumulator
  starts as \<open>[initial]\<close> and only grows.\<close>

definition scan :: "('a \<Rightarrow> 'b \<Rightarrow> 'a) \<Rightarrow> 'a \<Rightarrow> 'b list \<Rightarrow> 'a list" where
  "scan fn initial values = foldl (\<lambda>acc x. acc @ [fn (last acc) x]) [initial] values"

section \<open>Numbers\<close>

text \<open>
  A JavaScript number is modelled as an exact real, one of the two infinities, or
  not-a-number. The arithmetic on the infinities and on not-a-number is the one of the
  language; rounding, the overflow of finite arithmetic and the sign of a zero are outside
  the model (every divisor the evaluator meets is a digit, so a zero divisor is the
  positive zero).
\<close>

datatype jsnum = Fin real | PInf | NInf | NaN

fun js_neg :: "jsnum \<Rightarrow> jsnum" where
  "js_neg (Fin a) = Fin (- a)"
| "js_neg PInf = NInf"
| "js_neg NInf = PInf"
| "js_neg NaN = NaN"

fun js_add :: "jsnum \<Rightarrow> jsnum \<Rightarrow> jsnum" where
  "js_add (Fin a) (Fin b) = Fin (a + b)"
| "js_add (Fin a) PInf = PInf"
| "js_add (Fin a) NInf = NInf"
| "js_add PInf (Fin b) = PInf"
| "js_add PInf PInf = PInf"
| "js_add PInf NInf = NaN"
| "js_add NInf (Fin b) = NInf"
| "js_add NInf PInf = NaN"
| "js_add NInf NInf = NInf"
| "js_add NaN b = NaN"
| "js_add a NaN = NaN"

definition js_sub :: "jsnum \<Rightarrow> jsnum \<Rightarrow> jsnum" where
  "js_sub a b = js_add a (js_neg b)"

fun js_mul :: "jsnum \<Rightarrow> jsnum \<Rightarrow> jsnum" where
  "js_mul (Fin a) (Fin b) = Fin (a * b)"
| "js_mul (Fin a) PInf = (if 0 < a then PInf else if a < 0 then NInf else NaN)"
| "js_mul (Fin a) NInf = (if 0 < a then NInf else if a < 0 then PInf else NaN)"
| "js_mul PInf (Fin b) = (if 0 < b then PInf else if b < 0 then NInf else NaN)"
| "js_mul NInf (Fin b) = (if 0 < b then NInf else if b < 0 then PInf else NaN)"
| "js_mul PInf PInf = PInf"
| "js_mul PInf NInf = NInf"
| "js_mul NInf PInf = NInf"
| "js_mul NInf NInf = PInf"
| "js_mul NaN b = NaN"
| "js_mul a NaN = NaN"

fun js_div :: "jsnum \<Rightarrow> jsnum \<Rightarrow> jsnum" where
  "js_div (Fin a) (Fin b) =
     (if b \<noteq> 0 then Fin (a / b)
      else if 0 < a then PInf else if a < 0 then NInf else NaN)"
| "js_div (Fin a) PInf = Fin 0"
| "js_div (Fin a) NInf = Fin 0"
| "js_div PInf (Fin b) = (if 0 \<le> b then PInf else NInf)"
| "js_div NInf (Fin b) = (if 0 \<le> b then NInf else PInf)"
| "js_div PInf PInf = NaN"
| "js_div PInf NInf = NaN"
| "js_div NInf PInf = NaN"
| "js_div NInf NInf = NaN"
| "js_div NaN b = NaN"
| "js_div a NaN = NaN"

fun js_abs :: "jsnum \<Rightarrow> jsnum" where
  "js_abs (Fin a) = Fin \<bar>a\<bar>"
| "js_abs PInf = PInf"
| "js_abs NInf = PInf"
| "js_abs NaN = NaN"

text \<open>The comparisons \<open>>=\<close> and \<open>>\<close>: false as soon as one side is not-a-number.\<close>

fun js_ge :: "jsnum \<Rightarrow> jsnum \<Rightarrow> bool" where
  "js_ge (Fin a) (Fin b) = (b \<le> a)"
| "js_ge (Fin a) PInf = False"
| "js_ge (Fin a) NInf = True"
| "js_ge PInf (Fin b) = True"
| "js_ge PInf PInf = True"
| "js_ge PInf NInf = True"
| "js_ge NInf (Fin b) = False"
| "js_ge NInf PInf = False"
| "js_ge NInf NInf = True"
| "js_ge NaN b = False"
| "js_ge a NaN = False"

definition js_gt :: "jsnum \<Rightarrow> jsnum \<Rightarrow> bool" where
  "js_gt a b = (js_ge a b \<and> a \<noteq> b)"

definition isNaN :: "jsnum \<Rightarrow> bool" where
  "isNaN n = (n = NaN)"

definition sum_array :: "jsnum list \<Rightarrow> jsnum" where
  "sum_array ns = foldl (\<lambda>acc n. js_add acc n) (Fin 0) ns"

section \<open>Genes, chromosomes and the allele tables\<close>

datatype Bit = B0 | B1

type_synonym Gene = "Bit list"
type_synonym Chromosome = "Gene list"

text \<open>An organism is a chromosome with its fitness.\<close>

record Organism =
  chromosome :: Chromosome
  fitness :: jsnum

definition numberAlleles :: "Gene list" where
  "numberAlleles =
     [[B0, B0, B0, B0], [B0, B0, B0, B1], [B0, B0, B1, B0], [B0, B0, B1, B1],
      [B0, B1, B0, B0], [B0, B1, B0, B1], [B0, B1, B1, B0], [B0, B1, B1, B1],
      [B1, B0, B0, B0], [B1, B0, B0, B1]]"

definition operatorAlleles :: "Gene list" where
  "operatorAlleles = [[B0, B0], [B0, B1], [B1, B0], [B1, B1]]"

definition isNumber :: "Gene \<Rightarrow> bool" where
  "isNumber gene = list_ex (\<lambda>x. eqArrays x gene) numberAlleles"

definition isOperator :: "Gene \<Rightarrow> bool" where
  "isOperator gene = list_ex (\<lambda>x. eqArrays x gene) operatorAlleles"

definition geneValue :: "Gene \<Rightarrow> string" where
  "geneValue gene =
     (if isNumber gene \<and> eqArrays gene [B0, B0, B0, B0] then ''0''
      else if isNumber gene \<and> eqArrays gene [B0, B0, B0, B1] then ''1''
      else if isNumber gene \<and> eqArrays gene [B0, B0, B1, B0] then ''2''
      else if isNumber gene \<and> eqArrays gene [B0, B0, B1, B1] then ''3''
      else if isNumber gene \<and> eqArrays gene [B0, B1, B0, B0] then ''4''
      else if isNumber gene \<and> eqArrays gene [B0, B1, B0, B1] then ''5''
      else if isNumber gene \<and> eqArrays gene [B0, B1, B1, B0] then ''6''
      else if isNumber gene \<and> eqArrays gene [B0, B1, B1, B1] then ''7''
      else if isNumber gene \<and> eqArrays gene [B1, B0, B0, B0] then ''8''
      else if isNumber gene \<and> eqArrays gene [B1, B0, B0, B1] then ''9''
      else if isOperator gene \<and> eqArrays gene [B0, B0] then ''+''
      else if isOperator gene \<and> eqArrays gene [B0, B1] then ''-''
      else if isOperator gene \<and> eqArrays gene [B1, B0] then ''*''
      else if isOperator gene \<and> eqArrays gene [B1, B1] then ''/''
      else ''(junk)'')"

text \<open>\<open>join\<close> is \<open>Array.prototype.join\<close>: the separator stands between the elements.\<close>

fun join :: "string \<Rightarrow> string list \<Rightarrow> string" where
  "join sep [] = []"
| "join sep [x] = x"
| "join sep (x # y # ys) = x @ sep @ join sep (y # ys)"

definition phenotype :: "Organism \<Rightarrow> string" where
  "phenotype organism = join '' '' (map geneValue (chromosome organism))"

section \<open>The chromosome cleaner\<close>

definition cleanChromosome :: "Chromosome \<Rightarrow> Chromosome" where
  "cleanChromosome chrom =
     (let genes = [B0, B0] # chrom;
          pairs = chunksOf 2 genes
      in drop 1
           (foldl (\<lambda>acc pair. acc @ pair) []
              (filter (\<lambda>pair. geneValue (pair ! 1) \<noteq> ''(junk)'')
                 (filter (\<lambda>pair. length pair = 2) pairs))))"

definition cleanPhenotype :: "Organism \<Rightarrow> string" where
  "cleanPhenotype organism =
     phenotype (organism\<lparr>chromosome := cleanChromosome (chromosome organism)\<rparr>)"

section \<open>Evaluating an expression\<close>

text \<open>
  What the program can raise. \<open>EvalError\<close> stands for \<open>eval\<close> leaving the fragment
  modelled below (where it raises a SyntaxError or a ReferenceError, or follows rules
  of the language that the model does not cover).
\<close>

datatype error = RangeError | TypeError | EvalError

text \<open>
  \<open>evaluateMath\<close> hands the string to the language's \<open>eval\<close> and converts the result
  with \<open>Number\<close>. The model covers the strings the fitness evaluator builds from a
  cleaned chromosome: the empty string (\<open>eval\<close> gives \<open>undefined\<close>, \<open>Number\<close> makes it
  not-a-number) and \<open>d o d o ... d\<close>, single digits and the four operators separated by
  single spaces, evaluated with \<open>*\<close> and \<open>/\<close> binding tighter than \<open>+\<close> and \<open>-\<close> and
  from left to right among equals.
\<close>

definition digitTable :: "(char \<times> real) list" where
  "digitTable =
     [(CHR ''0'', 0), (CHR ''1'', 1), (CHR ''2'', 2), (CHR ''3'', 3), (CHR ''4'', 4),
      (CHR ''5'', 5), (CHR ''6'', 6), (CHR ''7'', 7), (CHR ''8'', 8), (CHR ''9'', 9)]"

definition digitValue :: "char \<Rightarrow> real option" where
  "digitValue c = map_of digitTable c"

definition isOperatorChar :: "char \<Rightarrow> bool" where
  "isOperatorChar c = (c = CHR ''+'' \<or> c = CHR ''-'' \<or> c = CHR ''*'' \<or> c = CHR ''/'')"

fun parseRest :: "string \<Rightarrow> (char \<times> real) list option" where
  "parseRest [] = Some []"
| "parseRest (s1 # oper # s2 # d # rest) =
     (if s1 = CHR '' '' \<and> s2 = CHR '' '' \<and> isOperatorChar oper
      then (case digitValue d of
              None \<Rightarrow> None
            | Some v \<Rightarrow> (case parseRest rest of
                          None \<Rightarrow> None
                        | Some ops \<Rightarrow> Some ((oper, v) # ops)))
      else None)"
| "parseRest _ = None"

definition parseExpr :: "string \<Rightarrow> (real \<times> (char \<times> real) list) option" where
  "parseExpr s =
     (case s of
        [] \<Rightarrow> None
      | d # rest \<Rightarrow> (case digitValue d of
                      None \<Rightarrow> None
                    | Some v \<Rightarrow> (case parseRest rest of
                                  None \<Rightarrow> None
                                | Some ops \<Rightarrow> Some (v, ops))))"

text \<open>
  The evaluation keeps the sum so far with its pending \<open>+\<close> or \<open>-\<close> and the product
  being built; a \<open>*\<close> or \<open>/\<close> extends the product, a \<open>+\<close> or \<open>-\<close> closes it.
\<close>

fun addPending :: "(jsnum \<times> char) option \<Rightarrow> jsnum \<Rightarrow> jsnum" where
  "addPending None t = t"
| "addPending (Some (acc, oper)) t =
     (if oper = CHR ''+'' then js_add acc t else js_sub acc t)"

fun evalOps :: "(jsnum \<times> char) option \<Rightarrow> jsnum \<Rightarrow> (char \<times> real) list \<Rightarrow> jsnum" where
  "evalOps pending t [] = addPending pending t"
| "evalOps pending t ((oper, d) # rest) =
     (if oper = CHR ''*'' then evalOps pending (js_mul t (Fin d)) rest
      else if oper = CHR ''/'' then evalOps pending (js_div t (Fin d)) rest
      else evalOps (Some (addPending pending t, oper)) (Fin d) rest)"

definition evaluateMath :: "string \<Rightarrow> error + jsnum" where
  "evaluateMath mathStr =
     (if mathStr = [] then Inr NaN
      else (case parseExpr mathStr of
              None \<Rightarrow> Inl EvalError
            | Some (d, ops) \<Rightarrow> Inr (evalOps None (Fin d) ops)))"

section \<open>Fitness\<close>

definition evaluateFitness :: "Chromosome \<Rightarrow> real \<Rightarrow> error + jsnum" where
  "evaluateFitness chrom target =
     (let mathStr = join '' '' (map geneValue (cleanChromosome chrom))
      in case evaluateMath mathStr of
           Inl e \<Rightarrow> Inl e
         | Inr n \<Rightarrow>
             Inr (if isNaN n \<or> n = PInf then Fin 0
                  else js_div (Fin 1) (js_add (js_abs (js_sub (Fin target) n)) (Fin 1))))"

subsection \<open>The linear walkthrough (src/unnamed/part\_000)\<close>

text \<open>
  The walkthrough has its own copies of the cleaner and of the fitness function. Its
  cleaner reduces without an initial value, which raises a TypeError on an empty array;
  its fitness adds 1 before taking the absolute value.
\<close>

definition cleanChromosome_linear :: "Chromosome \<Rightarrow> error + Chromosome" where
  "cleanChromosome_linear chrom =
     (let genes = [B0, B0] # chrom;
          pairs = chunksOf 2 genes
      in case filter (\<lambda>pair. geneValue (pair ! 1) \<noteq> ''(junk)'')
                (filter (\<lambda>pair. length pair = 2) pairs) of
           [] \<Rightarrow> Inl TypeError
         | p # ps \<Rightarrow> Inr (drop 1 (foldl (\<lambda>acc pair. acc @ pair) p ps)))"

definition evaluateFitness_linear :: "Chromosome \<Rightarrow> real \<Rightarrow> error + jsnum" where
  "evaluateFitness_linear chrom target =
     (case cleanChromosome_linear chrom of
        Inl e \<Rightarrow> Inl e
      | Inr cleaned \<Rightarrow>
          (let mathStr = join '' '' (map geneValue cleaned)
           in case evaluateMath mathStr of
                Inl e \<Rightarrow> Inl e
              | Inr n \<Rightarrow>
                  Inr (if isNaN n \<or> n = PInf then Fin 0
                       else js_div (Fin 1)
                              (js_abs (js_add (js_sub (Fin target) n) (Fin 1))))))"

definition chrom1 :: Chromosome where
  "chrom1 =
     [[B0, B1, B1, B0], [B0, B0], [B0, B1, B0, B1], [B1, B0], [B0, B1, B0, B0],
      [B1, B1], [B0, B0, B1, B0], [B0, B1], [B1, B1, B1, B1], [B0, B0],
      [B0, B0, B0, B1]]"

definition organism1 :: Organism where
  "organism1 = \<lparr>chromosome = chrom1, fitness = Fin 0\<rparr>"

section \<open>The source of randomness\<close>

text \<open>
  \<open>Math.random()\<close> returns a number that is at least 0 and less than 1. The numbers it
  returns during a run are a sequence \<open>rs\<close>; the state the code threads is the number
  \<open>i\<close> of draws made so far, so the next call returns \<open>rs i\<close>. Every function that
  draws returns the new count with its result.
\<close>

type_synonym draws = "nat \<Rightarrow> real"

definition constDraws :: "real \<Rightarrow> draws" where
  "constDraws x i = x"

text \<open>A map whose function draws, left to right: \<open>xs.map(f)\<close>.\<close>

fun mapWith :: "('a \<Rightarrow> nat \<Rightarrow> 'b \<times> nat) \<Rightarrow> 'a list \<Rightarrow> nat \<Rightarrow> 'b list \<times> nat" where
  "mapWith f [] i = ([], i)"
| "mapWith f (x # xs) i =
     (let (y, i1) = f x i; (ys, i2) = mapWith f xs i1 in (y # ys, i2))"

section \<open>Random chromosomes\<close>

definition randomBit :: "draws \<Rightarrow> nat \<Rightarrow> Bit \<times> nat" where
  "randomBit rs i = (if rs i < 0.5 then B0 else B1, Suc i)"

datatype NumberOrOperator = Number | Operator

fun randomGene :: "NumberOrOperator \<Rightarrow> draws \<Rightarrow> nat \<Rightarrow> Gene \<times> nat" where
  "randomGene Number rs i =
     (let (a, i1) = randomBit rs i; (b, i2) = randomBit rs i1;
          (c, i3) = randomBit rs i2; (d, i4) = randomBit rs i3
      in ([a, b, c, d], i4))"
| "randomGene Operator rs i =
     (let (a, i1) = randomBit rs i; (b, i2) = randomBit rs i1 in ([a, b], i2))"

text \<open>
  The requested length is an integer. \<open>Array(n)\<close> raises a RangeError for a negative
  \<open>n\<close>; the number genes are drawn before the operator array is built. \<open>flat()\<close> turns
  the zipped pairs into the genes in order. \<open>last(numberGenes)\<close> is only reached with
  at least one number gene.
\<close>

definition randomChromosome :: "int \<Rightarrow> draws \<Rightarrow> nat \<Rightarrow> error + (Chromosome \<times> nat)" where
  "randomChromosome len rs i =
     (if len div 2 < 0 then Inl RangeError
      else
        let (numberGenes, i1) =
              mapWith (\<lambda>_. randomGene Number rs) (buildArray (nat (len div 2))) i
        in if len div 2 - 1 < 0 then Inl RangeError
           else
             let (operatorGenes, i2) =
                   mapWith (\<lambda>_. randomGene Operator rs) (buildArray (nat (len div 2 - 1))) i1
             in Inr (concat (map (\<lambda>(a, b). [a, b]) (zip_arrays numberGenes operatorGenes))
                       @ [last numberGenes], i2))"

section \<open>Selection, crossover and mutation\<close>

text \<open>
  With an empty population \<open>fitnesses[0]\<close> is undefined, nothing is found and
  \<open>population[-1]\<close> is undefined: the result is \<open>None\<close>.
\<close>

definition rouletteWheelSelection :: "Organism list \<Rightarrow> draws \<Rightarrow> nat \<Rightarrow> Organism option \<times> nat" where
  "rouletteWheelSelection population rs i =
     (if population = [] then (None, Suc i)
      else
        let fitnesses = map fitness population;
            totalFitness = sum_array fitnesses;
            cumulFitnesses = scan (\<lambda>x y. js_add x y) (fitnesses ! 0) fitnesses;
            withCumulativeFitnesses = zip_arrays population cumulFitnesses;
            r = js_mul (Fin (rs i)) totalFitness
        in case find (\<lambda>(_, cf). js_ge cf r) withCumulativeFitnesses of
             None \<Rightarrow> (Some (population ! (length population - 1)), Suc i)
           | Some (organism, _) \<Rightarrow> (Some organism, Suc i))"

definition crossover ::
  "Chromosome \<Rightarrow> Chromosome \<Rightarrow> real \<Rightarrow> draws \<Rightarrow> nat \<Rightarrow> (Chromosome \<times> Chromosome) \<times> nat" where
  "crossover x y crossoverRate rs i =
     (let r = rs i
      in if r \<le> crossoverRate
         then
           let position = nat \<lfloor>rs (Suc i) * real (length x)\<rfloor>;
               xNew = take position x @ drop position y;
               yNew = take position y @ drop position x
           in ((xNew, yNew), Suc (Suc i))
         else ((x, y), Suc i))"

definition flipBit :: "Bit \<Rightarrow> Bit" where
  "flipBit b = (if b = B0 then B1 else B0)"

definition mutateBit :: "real \<Rightarrow> draws \<Rightarrow> Bit \<Rightarrow> nat \<Rightarrow> Bit \<times> nat" where
  "mutateBit mutationRate rs b i =
     (let r = rs i in (if r \<le> mutationRate then flipBit b else b, Suc i))"

definition mutateGene :: "real \<Rightarrow> draws \<Rightarrow> Gene \<Rightarrow> nat \<Rightarrow> Gene \<times> nat" where
  "mutateGene mutationRate rs gene i =
     (if isNumber gene
      then
        let (a, i1) = mutateBit mutationRate rs (gene ! 0) i;
            (b, i2) = mutateBit mutationRate rs (gene ! 1) i1;
            (c, i3) = mutateBit mutationRate rs (gene ! 2) i2;
            (d, i4) = mutateBit mutationRate rs (gene ! 3) i3
        in ([a, b, c, d], i4)
      else if isOperator gene
      then
        let (a, i1) = mutateBit mutationRate rs (gene ! 0) i;
            (b, i2) = mutateBit mutationRate rs (gene ! 1) i1
        in ([a, b], i2)
      else (gene, i))"

definition mutate :: "Chromosome \<Rightarrow> real \<Rightarrow> draws \<Rightarrow> nat \<Rightarrow> Chromosome \<times> nat" where
  "mutate chrom mutationRate rs i = mapWith (mutateGene mutationRate rs) chrom i"

section \<open>The run\<close>

text \<open>
  The configuration is made of integers and reals. What the run prints is left out; the
  model returns the winner the report is printed from. An exception raised on the way is
  the result \<open>Inl\<close>.
\<close>

text \<open>The initial population: \<open>buildArray(populationSize).map(_ => randomChromosome(...))\<close>.\<close>

fun initialPopulation :: "nat \<Rightarrow> int \<Rightarrow> draws \<Rightarrow> nat \<Rightarrow> error + (Chromosome list \<times> nat)" where
  "initialPopulation 0 len rs i = Inr ([], i)"
| "initialPopulation (Suc n) len rs i =
     (case randomChromosome len rs i of
        Inl e \<Rightarrow> Inl e
      | Inr (chrom, i1) \<Rightarrow>
          (case initialPopulation n len rs i1 of
             Inl e \<Rightarrow> Inl e
           | Inr (chroms, i2) \<Rightarrow> Inr (chrom # chroms, i2)))"

text \<open>Scoring: each chromosome becomes an organism with its fitness.\<close>

fun scorePopulation :: "Chromosome list \<Rightarrow> real \<Rightarrow> error + Organism list" where
  "scorePopulation [] target = Inr []"
| "scorePopulation (chrom # chroms) target =
     (case evaluateFitness chrom target of
        Inl e \<Rightarrow> Inl e
      | Inr f \<Rightarrow>
          (case scorePopulation chroms target of
             Inl e \<Rightarrow> Inl e
           | Inr organisms \<Rightarrow> Inr (\<lparr>chromosome = chrom, fitness = f\<rparr> # organisms)))"

text \<open>Reading \<open>.chromosome\<close> of an undefined parent raises a TypeError.\<close>

definition reproduce ::
  "Organism list \<Rightarrow> real \<Rightarrow> real \<Rightarrow> draws \<Rightarrow> nat \<Rightarrow> error + ((Chromosome \<times> Chromosome) \<times> nat)" where
  "reproduce population crossoverRate mutationRate rs i =
     (let (parent1, i1) = rouletteWheelSelection population rs i;
          (parent2, i2) = rouletteWheelSelection population rs i1
      in case parent1 of
           None \<Rightarrow> Inl TypeError
         | Some p1 \<Rightarrow>
             (case parent2 of
                None \<Rightarrow> Inl TypeError
              | Some p2 \<Rightarrow>
                  (let ((chromA, chromB), i3) =
                         crossover (chromosome p1) (chromosome p2) crossoverRate rs i2;
                       (chromAMutated, i4) = mutate chromA mutationRate rs i3;
                       (chromBMutated, i5) = mutate chromB mutationRate rs i4
                   in Inr ((chromAMutated, chromBMutated), i5))))"

text \<open>\<open>buildArray(n).map(reproduce).flat()\<close>: the children of \<open>n\<close> rounds, in order.\<close>

fun reproduceAll ::
  "nat \<Rightarrow> Organism list \<Rightarrow> real \<Rightarrow> real \<Rightarrow> draws \<Rightarrow> nat \<Rightarrow> error + (Chromosome list \<times> nat)" where
  "reproduceAll 0 population crossoverRate mutationRate rs i = Inr ([], i)"
| "reproduceAll (Suc n) population crossoverRate mutationRate rs i =
     (case reproduce population crossoverRate mutationRate rs i of
        Inl e \<Rightarrow> Inl e
      | Inr ((chromA, chromB), i1) \<Rightarrow>
          (case reproduceAll n population crossoverRate mutationRate rs i1 of
             Inl e \<Rightarrow> Inl e
           | Inr (chroms, i2) \<Rightarrow> Inr (chromA # chromB # chroms, i2)))"

text \<open>
  The generational step calls itself with the next generation until the generation
  reaches the limit. The size of the new population comes from \<open>populationSize\<close>, not
  from the population at hand.
\<close>

function generationalStep ::
  "int \<Rightarrow> real \<Rightarrow> real \<Rightarrow> int \<Rightarrow> real \<Rightarrow> draws \<Rightarrow> Chromosome list \<Rightarrow> int \<Rightarrow> nat
     \<Rightarrow> error + (Chromosome list \<times> nat)" where
  "generationalStep populationSize crossoverRate mutationRate generationLimit target rs
       chromPopulation generation i =
     (if generation \<ge> generationLimit then Inr (chromPopulation, i)
      else
        (case scorePopulation chromPopulation target of
           Inl e \<Rightarrow> Inl e
         | Inr population \<Rightarrow>
             (case reproduceAll (nat (populationSize div 2)) population crossoverRate
                     mutationRate rs i of
                Inl e \<Rightarrow> Inl e
              | Inr (newChromPopulation, i1) \<Rightarrow>
                  generationalStep populationSize crossoverRate mutationRate generationLimit
                    target rs newChromPopulation (generation + 1) i1)))"
  by pat_completeness auto
termination
  by (relation "measure (\<lambda>(populationSize, crossoverRate, mutationRate, generationLimit,
        target, rs, chromPopulation, generation, i). nat (generationLimit - generation))")
    auto

text \<open>The final population of a run; \<open>Array(populationSize)\<close> raises for a negative size.\<close>

definition finalChromPopulation ::
  "int \<Rightarrow> real \<Rightarrow> real \<Rightarrow> int \<Rightarrow> int \<Rightarrow> real \<Rightarrow> draws \<Rightarrow> error + (Chromosome list \<times> nat)" where
  "finalChromPopulation populationSize crossoverRate mutationRate generationLimit
       chromosomeLength target rs =
     (if populationSize < 0 then Inl RangeError
      else
        (case initialPopulation (nat populationSize) chromosomeLength rs 0 of
           Inl e \<Rightarrow> Inl e
         | Inr (initialChromPopulation, i0) \<Rightarrow>
             generationalStep populationSize crossoverRate mutationRate generationLimit
               target rs initialChromPopulation 0 i0))"

text \<open>The winner: \<open>reduce\<close> without an initial value raises a TypeError on an empty
  population; a later organism replaces the best one only with a strictly greater
  fitness.\<close>

definition runAlgorithm ::
  "int \<Rightarrow> real \<Rightarrow> real \<Rightarrow> int \<Rightarrow> int \<Rightarrow> real \<Rightarrow> draws \<Rightarrow> error + Organism" where
  "runAlgorithm populationSize crossoverRate mutationRate generationLimit chromosomeLength
       target rs =
     (case finalChromPopulation populationSize crossoverRate mutationRate generationLimit
             chromosomeLength target rs of
        Inl e \<Rightarrow> Inl e
      | Inr (finalChroms, i1) \<Rightarrow>
          (case scorePopulation finalChroms target of
             Inl e \<Rightarrow> Inl e
           | Inr finalPopulation \<Rightarrow>
               (case finalPopulation of
                  [] \<Rightarrow> Inl TypeError
                | first # others \<Rightarrow>
                    Inr (foldl (\<lambda>best organism.
                                  if js_gt (fitness organism) (fitness best) then organism
                                  else best)
                           first others))))"

section \<open>Auxiliary definitions of the proofs\<close>

text \<open>The chunks of size two, by recursion on the list.\<close>

fun pairsOf :: "'a list \<Rightarrow> 'a list list" where
  "pairsOf [] = []"
| "pairsOf [x] = [[x]]"
| "pairsOf (x # y # r) = [x, y] # pairsOf r"

text \<open>The pairs the cleaner keeps.\<close>

definition keptPairs :: "Gene list \<Rightarrow> Gene list list" where
  "keptPairs genes =
     filter (\<lambda>pair. geneValue (pair ! 1) \<noteq> ''(junk)'')
       (filter (\<lambda>pair. length pair = 2) (pairsOf genes))"

text \<open>What mutation at rate 1 does to a gene.\<close>

definition mutatedFully :: "Gene \<Rightarrow> Gene" where
  "mutatedFully g = (if isNumber g \<or> isOperator g then map flipBit g else g)"

text \<open>
  Selection as the specification words it: the running sums of the fitnesses in order,
  the first organism whose running sum is at least \<open>r\<close>, the last organism when there is
  none.
\<close>

definition prefixSums :: "jsnum list \<Rightarrow> jsnum list" where
  "prefixSums fs = map (\<lambda>k. sum_array (take (Suc k) fs)) [0..<length fs]"

definition spec_rouletteWheelSelection ::
  "Organism list \<Rightarrow> draws \<Rightarrow> nat \<Rightarrow> Organism option \<times> nat" where
  "spec_rouletteWheelSelection population rs i =
     (if population = [] then (None, Suc i)
      else
        let fitnesses = map fitness population;
            r = js_mul (Fin (rs i)) (sum_array fitnesses)
        in case find (\<lambda>(_, cf). js_ge cf r) (zip population (prefixSums fitnesses)) of
             None \<Rightarrow> (Some (last population), Suc i)
           | Some (organism, _) \<Rightarrow> (Some organism, Suc i))"

text \<open>
  Two populations scored against the target 42. In the first both chromosomes are a
  single junk gene, so both fitnesses are 0. The second decodes to \<open>6 * 7\<close>, \<open>1 / 0\<close>
  and \<open>7 * 6\<close>, with the fitnesses 1, 0 and 1.
\<close>

definition zeroPopulation :: "Organism list" where
  "zeroPopulation =
     [\<lparr>chromosome = [[B1, B1, B1, B1]], fitness = Fin 0\<rparr>,
      \<lparr>chromosome = [[B1, B1, B1, B0]], fitness = Fin 0\<rparr>]"

definition wheelPopulation :: "Organism list" where
  "wheelPopulation =
     [\<lparr>chromosome = [[B0, B1, B1, B0], [B1, B0], [B0, B1, B1, B1]], fitness = Fin 1\<rparr>,
      \<lparr>chromosome = [[B0, B0, B0, B1], [B1, B1], [B0, B0, B0, B0]], fitness = Fin 0\<rparr>,
      \<lparr>chromosome = [[B0, B1, B1, B1], [B1, B0], [B0, B1, B1, B0]], fitness = Fin 1\<rparr>]"

text \<open>
  The shape of a chromosome in the data model: genes of four bits and of two bits in
  turn, the first of four bits. \<open>altWidths\<close> is the same test on the list of widths.
\<close>

fun alternating :: "Chromosome \<Rightarrow> bool" where
  "alternating [] = True"
| "alternating [g] = (length g = 4)"
| "alternating (g # h # r) = (length g = 4 \<and> length h = 2 \<and> alternating r)"

fun altWidths :: "nat list \<Rightarrow> bool" where
  "altWidths [] = True"
| "altWidths [w] = (w = 4)"
| "altWidths (w # v # r) = (w = 4 \<and> v = 2 \<and> altWidths r)"

definition wellFormed :: "nat \<Rightarrow> Chromosome \<Rightarrow> bool" where
  "wellFormed n c = (alternating c \<and> length c = n)"

text \<open>A digit gene, then operator and digit genes in pairs: \<open>digit (operator digit)*\<close>.\<close>

fun validExpression :: "Chromosome \<Rightarrow> bool" where
  "validExpression [] = False"
| "validExpression [g] = isNumber g"
| "validExpression (g # h # r) = (isNumber g \<and> isOperator h \<and> validExpression r)"

text \<open>The string the fitness evaluator builds from a chromosome.\<close>

definition mathStrOf :: "Chromosome \<Rightarrow> string" where
  "mathStrOf chrom = join '' '' (map geneValue (cleanChromosome chrom))"

text \<open>The fitness as a function of the value of the expression.\<close>

definition fitnessOf :: "jsnum \<Rightarrow> real \<Rightarrow> real" where
  "fitnessOf n t = (case n of Fin v \<Rightarrow> 1 / (\<bar>t - v\<bar> + 1) | _ \<Rightarrow> 0)"

text \<open>The chromosome \<open>9 * 5 - 2\<close>, which evaluates to 43.\<close>

definition chrom43 :: Chromosome where
  "chrom43 = [[B1, B0, B0, B1], [B1, B0], [B0, B1, B0, B1], [B0, B1], [B0, B0, B1, B0]]"

text \<open>
  A run in which every draw is 1/4: every random bit is 0, so every chromosome of
  length 4 is \<open>0 + 0\<close>.
\<close>

definition oddRunDraws :: draws where
  "oddRunDraws = constDraws (1 / 4)"

definition zeroChrom :: Chromosome where
  "zeroChrom = [[B0, B0, B0, B0], [B0, B0], [B0, B0, B0, B0]]"

section \<open>Arrays and chunks\<close>

lemma eqArrays_eq: "eqArrays xs ys = (xs = ys)"
  unfolding eqArrays_def list_all_iff by (subst list_eq_iff_nth_eq) auto

lemma chunksOf_alt:
  "chunksOf n xs =
     map (\<lambda>k. map (\<lambda>i. xs ! (k * n + i)) [0..<n]) [0..<length xs div n] @
     (if 0 < length xs mod n
      then [map (\<lambda>i. xs ! (length xs div n * n + i)) [0..<length xs mod n]] else [])"
proof -
  have ix: "map (\<lambda>p. xs ! (case p of (chunkNum, idx) \<Rightarrow> chunkNum * n + idx))
              (zip (replicate m k) [0..<m])
            = map (\<lambda>i. xs ! (k * n + i)) [0..<m]" for m k
    by (rule nth_equalityI) simp_all
  have rep: "repeat x m = replicate m x" for x :: nat and m
    by (simp add: repeat_def buildArray_def map_replicate_const)
  show ?thesis
    by (simp add: chunksOf_def Let_def rep ix buildArray_def comp_def)
qed

lemma upt_0_Suc: "[0..<Suc m] = 0 # map Suc [0..<m]"
  by (simp only: map_Suc_upt upt_conv_Cons [of 0 "Suc m"] zero_less_Suc)

lemma chunksOf_2: "chunksOf 2 xs = pairsOf xs"
proof (induction xs rule: pairsOf.induct)
  case 1
  show ?case by (simp add: chunksOf_alt)
next
  case (2 x)
  show ?case by (simp add: chunksOf_alt)
next
  case (3 x y r)
  have len: "length (x # y # r) div 2 = Suc (length r div 2)"
    "length (x # y # r) mod 2 = length r mod 2" by simp_all
  have two: "[0..<2] = [0, Suc 0]" by (simp add: numeral_2_eq_2)
  show ?case
    unfolding chunksOf_alt len upt_0_Suc [of "length r div 2"]
    using 3 unfolding chunksOf_alt two
    by (cases "length r mod 2 = Suc 0") (simp_all add: comp_def del: upt_Suc)
qed

lemma foldl_append_concat: "foldl (\<lambda>acc pair. acc @ pair) a xs = a @ concat xs"
  by (induction xs arbitrary: a) simp_all

section \<open>The gene codec\<close>

lemma isNumber_iff: "isNumber g = (g \<in> set numberAlleles)"
  by (auto simp: isNumber_def list_ex_iff eqArrays_eq)

lemma isOperator_iff: "isOperator g = (g \<in> set operatorAlleles)"
  by (auto simp: isOperator_def list_ex_iff eqArrays_eq)

lemma geneValue_simps:
  "geneValue [B0, B0, B0, B0] = ''0''" "geneValue [B0, B0, B0, B1] = ''1''"
  "geneValue [B0, B0, B1, B0] = ''2''" "geneValue [B0, B0, B1, B1] = ''3''"
  "geneValue [B0, B1, B0, B0] = ''4''" "geneValue [B0, B1, B0, B1] = ''5''"
  "geneValue [B0, B1, B1, B0] = ''6''" "geneValue [B0, B1, B1, B1] = ''7''"
  "geneValue [B1, B0, B0, B0] = ''8''" "geneValue [B1, B0, B0, B1] = ''9''"
  "geneValue [B0, B0] = ''+''" "geneValue [B0, B1] = ''-''"
  "geneValue [B1, B0] = ''*''" "geneValue [B1, B1] = ''/''"
  by (simp_all add: geneValue_def isNumber_iff isOperator_iff eqArrays_eq
      numberAlleles_def operatorAlleles_def)

lemma geneValue_junk4:
  "geneValue [B1, B0, B1, B0] = ''(junk)''" "geneValue [B1, B0, B1, B1] = ''(junk)''"
  "geneValue [B1, B1, B0, B0] = ''(junk)''" "geneValue [B1, B1, B0, B1] = ''(junk)''"
  "geneValue [B1, B1, B1, B0] = ''(junk)''" "geneValue [B1, B1, B1, B1] = ''(junk)''"
  by (simp_all add: geneValue_def isNumber_iff isOperator_iff eqArrays_eq
      numberAlleles_def operatorAlleles_def)

section \<open>The cleaner\<close>

lemma cleanChromosome_kept:
  "cleanChromosome c = drop 1 (concat (keptPairs ([B0, B0] # c)))"
  by (simp add: cleanChromosome_def Let_def chunksOf_2 foldl_append_concat keptPairs_def)

lemma keptPairs_props:
  "p \<in> set (keptPairs genes) \<Longrightarrow> length p = 2 \<and> geneValue (p ! 1) \<noteq> ''(junk)''"
  by (simp add: keptPairs_def)

lemma pairsOf_concat:
  "(\<And>p. p \<in> set K \<Longrightarrow> length p = 2) \<Longrightarrow> pairsOf (concat K) = K"
proof (induction K)
  case Nil
  show ?case by simp
next
  case (Cons q K)
  have "length q = 2" using Cons.prems by simp
  then obtain a b where q: "q = [a, b]"
    by (cases q; cases "tl q") auto
  show ?case using Cons by (simp add: q)
qed

lemma keptPairs_fixed:
  assumes "\<And>p. p \<in> set K \<Longrightarrow> length p = 2 \<and> geneValue (p ! 1) \<noteq> ''(junk)''"
  shows "keptPairs (concat K) = K"
proof -
  have "pairsOf (concat K) = K" using assms by (intro pairsOf_concat) simp
  moreover have "filter (\<lambda>pair. length pair = 2) K = K"
    using assms by (intro filter_True) simp
  moreover have "filter (\<lambda>pair. geneValue (pair ! 1) \<noteq> ''(junk)'') K = K"
    using assms by (intro filter_True) simp
  ultimately show ?thesis by (simp add: keptPairs_def)
qed

text \<open>
  Claim C5. Cleaning is idempotent: cleaning a cleaned chromosome gives the cleaned
  chromosome again, for every list of genes. The pairs that survive the first cleaning
  are, after the synthetic plus gene is put back in front, exactly the pairs the second
  cleaning forms, and each of them survives again.
\<close>

theorem cleanChromosome_idempotent:
  "cleanChromosome (cleanChromosome c) = cleanChromosome c"
proof (cases "keptPairs ([B0, B0] # c)")
  case Nil
  then show ?thesis by (simp add: cleanChromosome_kept keptPairs_def)
next
  case (Cons q K)
  have q2: "length q = 2 \<and> geneValue (q ! 1) \<noteq> ''(junk)''"
    using keptPairs_props [of q "[B0, B0] # c"] Cons by simp
  then obtain a b where q: "q = [a, b]"
    by (cases q; cases "tl q") auto
  have K: "\<And>p. p \<in> set K \<Longrightarrow> length p = 2 \<and> geneValue (p ! 1) \<noteq> ''(junk)''"
    using keptPairs_props [of _ "[B0, B0] # c"] Cons by simp
  have "\<And>p. p \<in> set ([[B0, B0], b] # K) \<Longrightarrow>
          length p = 2 \<and> geneValue (p ! 1) \<noteq> ''(junk)''"
    using K q2 q by auto
  then have "keptPairs (concat ([[B0, B0], b] # K)) = [[B0, B0], b] # K"
    by (rule keptPairs_fixed)
  then have again: "keptPairs ([B0, B0] # b # concat K) = [[B0, B0], b] # K" by simp
  have c1: "cleanChromosome c = b # concat K"
    by (simp add: cleanChromosome_kept Cons q)
  show ?thesis unfolding c1 by (simp add: cleanChromosome_kept again)
qed

section \<open>The worked example\<close>

lemma cleanPhenotype_mathStrOf: "cleanPhenotype organism = mathStrOf (chromosome organism)"
  by (simp add: cleanPhenotype_def phenotype_def mathStrOf_def)

lemma chrom1_phenotype: "phenotype organism1 = ''6 + 5 * 4 / 2 - (junk) + 1''"
  by (simp add: phenotype_def organism1_def chrom1_def geneValue_simps geneValue_junk4)

lemma chrom1_clean:
  "cleanChromosome chrom1 =
     [[B0, B1, B1, B0], [B0, B0], [B0, B1, B0, B1], [B1, B0], [B0, B1, B0, B0],
      [B1, B1], [B0, B0, B1, B0], [B0, B0], [B0, B0, B0, B1]]"
  by (simp add: cleanChromosome_kept keptPairs_def chrom1_def geneValue_simps geneValue_junk4)

lemma chrom1_clean_linear: "cleanChromosome_linear chrom1 = Inr (cleanChromosome chrom1)"
  by (simp add: chrom1_clean)
    (simp add: cleanChromosome_linear_def chunksOf_2 chrom1_def geneValue_simps
      geneValue_junk4)

lemma chrom1_mathStrOf: "mathStrOf chrom1 = ''6 + 5 * 4 / 2 + 1''"
  by (simp add: mathStrOf_def chrom1_clean geneValue_simps)

lemma chrom1_cleanPhenotype: "cleanPhenotype organism1 = ''6 + 5 * 4 / 2 + 1''"
  by (simp add: cleanPhenotype_mathStrOf organism1_def chrom1_mathStrOf)

lemma chrom1_evaluateMath: "evaluateMath ''6 + 5 * 4 / 2 + 1'' = Inr (Fin 17)"
  by (simp add: evaluateMath_def parseExpr_def digitValue_def digitTable_def
      isOperatorChar_def)

lemma chrom1_fitness: "evaluateFitness (chromosome organism1) 42 = Inr (Fin (1 / 26))"
  using chrom1_mathStrOf
  by (simp add: evaluateFitness_def mathStrOf_def organism1_def chrom1_evaluateMath isNaN_def
      js_sub_def)

lemma chrom1_fitness_linear:
  "evaluateFitness_linear (chromosome organism1) 42 = Inr (Fin (1 / 26))"
  using chrom1_mathStrOf
  by (simp add: evaluateFitness_linear_def chrom1_clean_linear mathStrOf_def organism1_def
      chrom1_evaluateMath isNaN_def js_sub_def)

text \<open>
  Claim C6. The organism \<open>organism1\<close> of the walkthrough, with the chromosome
  \<open>chrom1\<close>, decodes to \<open>6 + 5 * 4 / 2 - (junk) + 1\<close>; cleaning drops the junk digit
  with the \<open>-\<close> in front of it and keeps the \<open>+\<close> behind it, so the clean phenotype
  is \<open>6 + 5 * 4 / 2 + 1\<close>; that expression evaluates to 17, and the fitness against
  the target 42 is 1/26, with the fitness function of the program and with the one of the
  walkthrough.
\<close>

theorem chrom1_end_to_end:
  "chromosome organism1 = chrom1 \<and>
   phenotype organism1 = ''6 + 5 * 4 / 2 - (junk) + 1'' \<and>
   cleanPhenotype organism1 = ''6 + 5 * 4 / 2 + 1'' \<and>
   evaluateMath (cleanPhenotype organism1) = Inr (Fin 17) \<and>
   evaluateFitness (chromosome organism1) 42 = Inr (Fin (1 / 26)) \<and>
   evaluateFitness_linear (chromosome organism1) 42 = Inr (Fin (1 / 26))"
  by (simp only: chrom1_phenotype chrom1_cleanPhenotype chrom1_evaluateMath chrom1_fitness
      chrom1_fitness_linear simp_thms) (simp add: organism1_def)

section \<open>Roulette-wheel selection\<close>

lemma foldl_snoc_map: "foldl (\<lambda>acc i. acc @ [f i]) a is = a @ map f is"
  by (induction "is" arbitrary: a) simp_all

lemma zip_arrays_zip: "zip_arrays xs ys = zip xs ys"
proof -
  have "map (\<lambda>i. (xs ! i, ys ! i)) [0..<min (length xs) (length ys)] = zip xs ys"
    by (rule nth_equalityI) simp_all
  then show ?thesis
    by (auto simp: zip_arrays_def foldl_snoc_map min_def)
qed

lemma scan_acc:
  "foldl (\<lambda>acc x. acc @ [fn (last acc) x]) (a # as) xs
     = a # foldl (\<lambda>acc x. acc @ [fn (last (a # acc)) x]) as xs"
  by (induction xs arbitrary: as) simp_all

lemma scan_Cons: "\<exists>rest. scan fn a xs = a # rest"
  unfolding scan_def by (subst scan_acc) blast

lemma scan_steps:
  "foldl (\<lambda>acc x. acc @ [fn (last acc) x]) (as @ [a]) xs
     = as @ map (\<lambda>k. foldl fn a (take k xs)) [0..<Suc (length xs)]"
proof (induction xs arbitrary: as a)
  case Nil
  show ?case by simp
next
  case (Cons x xs)
  have "foldl (\<lambda>acc x. acc @ [fn (last acc) x]) (as @ [a]) (x # xs)
        = foldl (\<lambda>acc x. acc @ [fn (last acc) x]) ((as @ [a]) @ [fn a x]) xs"
    by simp
  also have "\<dots> = (as @ [a]) @ map (\<lambda>k. foldl fn (fn a x) (take k xs)) [0..<Suc (length xs)]"
    by (rule Cons.IH)
  also have "\<dots> = as @ map (\<lambda>k. foldl fn a (take k (x # xs))) [0..<Suc (length (x # xs))]"
    by (simp add: upt_conv_Cons [of 0] map_Suc_upt [symmetric] del: upt_Suc)
  finally show ?case .
qed

text \<open>
  The values \<open>scan\<close> returns: the initial value, then the initial value folded with each
  prefix of the list. Called with the first fitness as the initial value, the number
  paired with the organism at index \<open>k\<close> is the first fitness plus the sum of the
  fitnesses before index \<open>k\<close>.
\<close>

lemma scan_map: "scan fn a xs = map (\<lambda>k. foldl fn a (take k xs)) [0..<Suc (length xs)]"
  using scan_steps [of fn "[]" a xs] by (simp add: scan_def)

lemma foldl_js_add_zero:
  "\<forall>x \<in> set ns. x = Fin 0 \<Longrightarrow> foldl (\<lambda>acc n. js_add acc n) (Fin 0) ns = Fin 0"
  by (induction ns) simp_all

text \<open>
  Claim C7, as amended. In a non-empty population in which every fitness is 0 the total
  is 0, so \<open>r\<close> is 0 whatever is drawn; the first cumulative value is 0 and passes the
  test \<open>cf >= r\<close>. The selection therefore returns the first organism: it does not fail,
  and it does not reach the branch that returns the last one.
\<close>

theorem all_zero_selects_first:
  assumes "population \<noteq> []" and "\<forall>p \<in> set population. fitness p = Fin 0"
  shows "fst (rouletteWheelSelection population rs i) = Some (population ! 0)"
proof -
  obtain p ps where pop: "population = p # ps" using assms(1) by (cases population) auto
  have tot: "sum_array (map fitness population) = Fin 0"
    unfolding sum_array_def using assms(2) by (intro foldl_js_add_zero) auto
  have f0: "fitness p = Fin 0" using assms(2) pop by simp
  obtain rest where sc: "scan (\<lambda>x y. js_add x y) (Fin 0) (map fitness population) = Fin 0 # rest"
    using scan_Cons [of js_add "Fin 0" "map fitness population"] by blast
  show ?thesis
    using sc f0 tot
    by (simp add: rouletteWheelSelection_def Let_def zip_arrays_zip pop)
qed

theorem all_zero_selects_first_witness:
  "zeroPopulation \<noteq> [] \<and> map fitness zeroPopulation = [Fin 0, Fin 0] \<and>
   fst (rouletteWheelSelection zeroPopulation (constDraws (1 / 2)) 0)
     = Some \<lparr>chromosome = [[B1, B1, B1, B1]], fitness = Fin 0\<rparr>"
  using all_zero_selects_first [of zeroPopulation "constDraws (1 / 2)" 0]
  by (simp add: zeroPopulation_def)

text \<open>
  The claim as the specification states it fails on \<open>zeroPopulation\<close>: both fitnesses
  are 0, and the organism selected is not the last one.
\<close>

theorem all_zero_not_last:
  "zeroPopulation \<noteq> [] \<and> map fitness zeroPopulation = [Fin 0, Fin 0] \<and>
   evaluateFitness (chromosome (zeroPopulation ! 0)) 42 = Inr (Fin 0) \<and>
   evaluateFitness (chromosome (zeroPopulation ! 1)) 42 = Inr (Fin 0) \<and>
   fst (rouletteWheelSelection zeroPopulation (constDraws (1 / 2)) 0)
     \<noteq> Some (zeroPopulation ! (length zeroPopulation - 1))"
proof -
  have "evaluateFitness [[B1, B1, B1, B1]] 42 = Inr (Fin 0)"
    and "evaluateFitness [[B1, B1, B1, B0]] 42 = Inr (Fin 0)"
    by (simp_all add: evaluateFitness_def cleanChromosome_kept keptPairs_def geneValue_junk4
        evaluateMath_def isNaN_def)
  then show ?thesis
    by (simp add: rouletteWheelSelection_def zeroPopulation_def Let_def zip_arrays_zip scan_def
        sum_array_def constDraws_def)
qed

lemma wheelPopulation_scored:
  "evaluateFitness (chromosome (wheelPopulation ! 0)) 42 = Inr (Fin 1)"
  "evaluateFitness (chromosome (wheelPopulation ! 1)) 42 = Inr (Fin 0)"
  "evaluateFitness (chromosome (wheelPopulation ! 2)) 42 = Inr (Fin 1)"
  by (simp_all add: wheelPopulation_def evaluateFitness_def cleanChromosome_kept keptPairs_def
      geneValue_simps evaluateMath_def parseExpr_def digitValue_def digitTable_def
      isOperatorChar_def isNaN_def js_sub_def)

lemma wheelPopulation_code:
  "fst (rouletteWheelSelection wheelPopulation (constDraws (3 / 4)) 0)
     = Some (wheelPopulation ! 1)"
  by (simp add: rouletteWheelSelection_def wheelPopulation_def Let_def zip_arrays_zip scan_def
      sum_array_def constDraws_def)

lemma wheelPopulation_spec:
  "fst (spec_rouletteWheelSelection wheelPopulation (constDraws (3 / 4)) 0)
     = Some (wheelPopulation ! 2)"
  by (simp add: spec_rouletteWheelSelection_def wheelPopulation_def Let_def prefixSums_def
      sum_array_def constDraws_def upt_rec numeral_3_eq_3)

text \<open>
  Claim C2, at the failing input. The population \<open>wheelPopulation\<close> has the fitnesses
  1, 0 and 1 (its chromosomes scored against 42), so the total is 2; \<open>Math.random()\<close>
  returns 3/4, so \<open>r\<close> is 3/2. The running sums are 1, 1 and 2, and the first organism
  whose running sum is at least \<open>r\<close> is the third. The code starts \<open>scan\<close> from the
  first fitness, pairs the organisms with 1, 2 and 2, and selects the second organism,
  whose fitness is 0, without reaching the fallback.
\<close>

theorem rouletteWheelSelection_counts_first_twice:
  "map fitness wheelPopulation = [Fin 1, Fin 0, Fin 1] \<and>
   evaluateFitness (chromosome (wheelPopulation ! 0)) 42 = Inr (Fin 1) \<and>
   evaluateFitness (chromosome (wheelPopulation ! 1)) 42 = Inr (Fin 0) \<and>
   evaluateFitness (chromosome (wheelPopulation ! 2)) 42 = Inr (Fin 1) \<and>
   fst (rouletteWheelSelection wheelPopulation (constDraws (3 / 4)) 0)
     = Some (wheelPopulation ! 1) \<and>
   fitness (wheelPopulation ! 1) = Fin 0 \<and>
   fst (spec_rouletteWheelSelection wheelPopulation (constDraws (3 / 4)) 0)
     = Some (wheelPopulation ! 2)"
proof -
  have "map fitness wheelPopulation = [Fin 1, Fin 0, Fin 1]"
    and "fitness (wheelPopulation ! 1) = Fin 0"
    by (simp_all add: wheelPopulation_def)
  then show ?thesis
    by (simp only: wheelPopulation_code wheelPopulation_spec wheelPopulation_scored simp_thms)
qed

section \<open>Mutation\<close>

lemma mapWith_fst:
  "(\<And>x j. fst (f x j) = h x) \<Longrightarrow> fst (mapWith f xs i) = map h xs"
proof (induction xs arbitrary: i)
  case Nil
  show ?case by simp
next
  case (Cons x xs)
  obtain y i1 where f: "f x i = (y, i1)" by (cases "f x i")
  obtain ys i2 where m: "mapWith f xs i1 = (ys, i2)" by (cases "mapWith f xs i1")
  have "y = h x" using Cons.prems [of x i] f by simp
  moreover have "ys = map h xs" using Cons.IH [of i1] Cons.prems m by simp
  ultimately show ?case by (simp add: f m)
qed

lemma isNumber_cases: "isNumber g \<Longrightarrow> \<exists>a b c d. g = [a, b, c, d]"
  by (auto simp: isNumber_iff numberAlleles_def)

lemma isOperator_cases: "isOperator g \<Longrightarrow> \<exists>a b. g = [a, b]"
  by (auto simp: isOperator_iff operatorAlleles_def)

lemma isOperator_length: "isOperator g = (length g = 2)"
proof
  assume "isOperator g"
  then show "length g = 2" using isOperator_cases by fastforce
next
  assume "length g = 2"
  then obtain a b where "g = [a, b]" by (cases g; cases "tl g") auto
  then show "isOperator g"
    by (cases a; cases b) (simp_all add: isOperator_iff operatorAlleles_def)
qed

lemma mutateGene_rate_1:
  assumes "\<forall>j. rs j \<le> 1"
  shows "fst (mutateGene 1 rs g i) = mutatedFully g"
proof (cases "isNumber g")
  case True
  then obtain a b c d where "g = [a, b, c, d]" using isNumber_cases by blast
  with True assms show ?thesis
    by (simp add: mutateGene_def mutateBit_def mutatedFully_def Let_def)
next
  case False
  show ?thesis
  proof (cases "isOperator g")
    case True
    then obtain a b where "g = [a, b]" using isOperator_cases by blast
    with True False assms show ?thesis
      by (simp add: mutateGene_def mutateBit_def mutatedFully_def Let_def)
  next
    case no: False
    with False show ?thesis by (simp add: mutateGene_def mutatedFully_def)
  qed
qed

lemma mutateGene_rate_0:
  assumes "\<forall>j. 0 < rs j"
  shows "fst (mutateGene 0 rs g i) = g"
proof (cases "isNumber g")
  case True
  then obtain a b c d where "g = [a, b, c, d]" using isNumber_cases by blast
  moreover have "\<And>j. \<not> rs j \<le> 0" using assms by (simp add: not_le)
  ultimately show ?thesis using True
    by (simp add: mutateGene_def mutateBit_def Let_def)
next
  case False
  show ?thesis
  proof (cases "isOperator g")
    case True
    then obtain a b where "g = [a, b]" using isOperator_cases by blast
    moreover have "\<And>j. \<not> rs j \<le> 0" using assms by (simp add: not_le)
    ultimately show ?thesis using True False
      by (simp add: mutateGene_def mutateBit_def Let_def)
  next
    case no: False
    with False show ?thesis by (simp add: mutateGene_def)
  qed
qed

text \<open>
  Claim C3, as amended. Every draw is below 1, so at rate 1 the test
  \<open>r <= mutationRate\<close> always passes: every bit of every gene that is a digit or an
  operator is flipped. A gene that is neither passes both guards and is returned as it
  is. At rate 0 a draw above 0 fails the test, so when every draw is above 0 the chromosome
  comes back unchanged.
\<close>

theorem mutate_extreme_rates:
  "((\<forall>j. rs j < 1) \<longrightarrow> fst (mutate c 1 rs i) = map mutatedFully c) \<and>
   ((\<forall>j. 0 < rs j) \<longrightarrow> fst (mutate c 0 rs i) = c)"
proof (intro conjI impI)
  assume "\<forall>j. rs j < 1"
  then have "\<forall>j. rs j \<le> 1" by (simp add: less_imp_le)
  then show "fst (mutate c 1 rs i) = map mutatedFully c"
    unfolding mutate_def by (intro mapWith_fst mutateGene_rate_1)
next
  assume "\<forall>j. 0 < rs j"
  then have "fst (mapWith (mutateGene 0 rs) c i) = map (\<lambda>g. g) c"
    by (intro mapWith_fst mutateGene_rate_0)
  then show "fst (mutate c 0 rs i) = c" by (simp add: mutate_def)
qed

theorem mutate_extreme_rates_witness:
  "(\<forall>j. constDraws (1 / 2) j < 1) \<and> (\<forall>j. 0 < constDraws (1 / 2) j) \<and>
   fst (mutate chrom1 1 (constDraws (1 / 2)) 0) =
     [[B1, B0, B0, B1], [B1, B1], [B1, B0, B1, B0], [B0, B1], [B1, B0, B1, B1],
      [B0, B0], [B1, B1, B0, B1], [B1, B0], [B1, B1, B1, B1], [B1, B1],
      [B1, B1, B1, B0]] \<and>
   fst (mutate chrom1 0 (constDraws (1 / 2)) 0) = chrom1"
  using mutate_extreme_rates [of "constDraws (1 / 2)" chrom1 0]
  by (simp add: constDraws_def mutatedFully_def chrom1_def isNumber_iff isOperator_iff
      numberAlleles_def operatorAlleles_def flipBit_def)

text \<open>
  The claim as the specification states it fails on a junk gene: at rate 1 the gene
  \<open>1111\<close> is not flipped.
\<close>

theorem mutate_skips_junk:
  "fst (mutate [[B1, B1, B1, B1]] 1 (constDraws (1 / 2)) 0)
     \<noteq> map (map flipBit) [[B1, B1, B1, B1]]"
  by (simp add: mutate_def mutateGene_def isNumber_iff isOperator_iff
      numberAlleles_def operatorAlleles_def flipBit_def)

text \<open>A draw of exactly 0 passes the test \<open>r <= mutationRate\<close> at rate 0.\<close>

lemma mutate_rate_0_draw_0:
  "fst (mutate [[B0, B0]] 0 (constDraws 0) 0) = [[B1, B1]]"
  by (simp add: mutate_def mutateGene_def mutateBit_def isNumber_iff isOperator_iff
      numberAlleles_def operatorAlleles_def flipBit_def constDraws_def)

section \<open>Crossover\<close>

lemma crossover_rate_0: "0 < rs i \<Longrightarrow> crossover x y 0 rs i = ((x, y), Suc i)"
  by (simp add: crossover_def)

lemma crossover_rate_1:
  assumes "\<forall>j. 0 \<le> rs j \<and> rs j < 1"
  shows "\<exists>position. position \<le> length x \<and> (x \<noteq> [] \<longrightarrow> position < length x) \<and>
           crossover x y 1 rs i =
             ((take position x @ drop position y, take position y @ drop position x),
              Suc (Suc i))"
proof -
  let ?p = "nat \<lfloor>rs (Suc i) * real (length x)\<rfloor>"
  have r0: "0 \<le> rs (Suc i)" and r1: "rs (Suc i) < 1" using assms by auto
  have "rs (Suc i) * real (length x) \<le> real (length x)"
    using r0 r1 by (simp add: mult_left_le_one_le)
  then have "\<lfloor>rs (Suc i) * real (length x)\<rfloor> \<le> int (length x)"
    by (simp add: floor_le_iff)
  then have le: "?p \<le> length x" by simp
  have lt: "?p < length x" if "x \<noteq> []"
  proof -
    have "0 < real (length x)" using that by simp
    then have "rs (Suc i) * real (length x) < real (length x)" using r1 by simp
    then have "\<lfloor>rs (Suc i) * real (length x)\<rfloor> < int (length x)"
      by (simp add: floor_less_iff)
    moreover have "0 \<le> \<lfloor>rs (Suc i) * real (length x)\<rfloor>" using r0 by simp
    ultimately show ?thesis by (simp add: nat_less_iff)
  qed
  have "rs i \<le> 1" using assms by (simp add: less_imp_le)
  then have "crossover x y 1 rs i =
      ((take ?p x @ drop ?p y, take ?p y @ drop ?p x), Suc (Suc i))"
    by (simp add: crossover_def Let_def)
  with le lt show ?thesis by blast
qed

text \<open>
  Claim C8, at the failing input. The rate is 0 and \<open>Math.random()\<close> returns 0: the
  test \<open>r <= crossoverRate\<close> passes, the cut position is 0, and the two children are
  the parents in the other order, not the parents unchanged. (For a draw above 0 the
  parents are returned unchanged, and at rate 1 the tails are always swapped at a cut
  position inside the chromosome: \<open>crossover_rate_0\<close>, \<open>crossover_rate_1\<close>.)
\<close>

theorem crossover_rate_0_draw_0:
  "fst (crossover [[B0, B0, B0, B0]] [[B0, B0, B0, B1]] 0 (constDraws 0) 0)
     = ([[B0, B0, B0, B1]], [[B0, B0, B0, B0]])"
  by (simp add: crossover_def constDraws_def)

section \<open>The shape of a random chromosome\<close>

lemma mapWith_length: "length (fst (mapWith f xs i)) = length xs"
proof (induction xs arbitrary: i)
  case Nil
  show ?case by simp
next
  case (Cons x xs)
  obtain y i1 where f: "f x i = (y, i1)" by (cases "f x i")
  obtain ys i2 where m: "mapWith f xs i1 = (ys, i2)" by (cases "mapWith f xs i1")
  show ?case using Cons.IH [of i1] by (simp add: f m)
qed

lemma mapWith_all:
  "(\<And>x j. P (fst (f x j))) \<Longrightarrow> y \<in> set (fst (mapWith f xs i)) \<Longrightarrow> P y"
proof (induction xs arbitrary: i)
  case Nil
  then show ?case by simp
next
  case (Cons x xs)
  obtain z i1 where f: "f x i = (z, i1)" by (cases "f x i")
  obtain ys i2 where m: "mapWith f xs i1 = (ys, i2)" by (cases "mapWith f xs i1")
  have "y = z \<or> y \<in> set ys" using Cons.prems(2) by (simp add: f m)
  then show ?case
  proof
    assume "y = z"
    then show ?thesis using Cons.prems(1) [of x i] f by simp
  next
    assume "y \<in> set ys"
    then show ?thesis using Cons.IH [of i1] Cons.prems(1) m by simp
  qed
qed

lemma randomGene_length:
  "length (fst (randomGene Number rs i)) = 4" "length (fst (randomGene Operator rs i)) = 2"
  by (simp_all add: randomBit_def Let_def)

lemma interleave_alternating:
  assumes "length ns = Suc (length os)"
    and "\<forall>g \<in> set ns. length g = 4" and "\<forall>g \<in> set os. length g = 2"
  shows "alternating (concat (map (\<lambda>(a, b). [a, b]) (zip ns os)) @ [last ns]) \<and>
         length (concat (map (\<lambda>(a, b). [a, b]) (zip ns os)) @ [last ns]) = 2 * length os + 1"
  using assms
proof (induction os arbitrary: ns)
  case Nil
  then obtain a where "ns = [a]" by (cases ns) auto
  with Nil show ?case by simp
next
  case (Cons b os)
  then obtain a ns' where ns: "ns = a # ns'" by (cases ns) auto
  have ne: "ns' \<noteq> []" using Cons.prems(1) ns by auto
  have "alternating (concat (map (\<lambda>(a, b). [a, b]) (zip ns' os)) @ [last ns']) \<and>
        length (concat (map (\<lambda>(a, b). [a, b]) (zip ns' os)) @ [last ns']) = 2 * length os + 1"
    using Cons.prems ns by (intro Cons.IH) auto
  then show ?case using Cons.prems ns ne by simp
qed

lemma alternating_nth:
  "alternating c \<Longrightarrow> k < length c \<Longrightarrow> length (c ! k) = (if even k then 4 else 2)"
proof (induction c arbitrary: k rule: alternating.induct)
  case 1
  then show ?case by simp
next
  case (2 g)
  then show ?case by simp
next
  case (3 g h r)
  show ?case
  proof (cases k)
    case 0
    then show ?thesis using 3 by simp
  next
    case (Suc k1)
    show ?thesis
    proof (cases k1)
      case 0
      then show ?thesis using 3 Suc by simp
    next
      case (Suc k2)
      then show ?thesis using 3 \<open>k = Suc k1\<close> by simp
    qed
  qed
qed

lemma alternating_counts:
  "alternating c \<Longrightarrow>
     length (filter (\<lambda>g. length g = 4) c) = Suc (length c) div 2 \<and>
     length (filter (\<lambda>g. length g = 2) c) = length c div 2"
  by (induction c rule: alternating.induct) simp_all

lemma alternating_ends:
  "alternating c \<Longrightarrow> odd (length c) \<Longrightarrow> length (hd c) = 4 \<and> length (last c) = 4"
  by (induction c rule: alternating.induct) auto

lemma randomChromosome_alternating:
  assumes "2 \<le> L"
  shows "\<exists>c i'. randomChromosome L rs i = Inr (c, i') \<and> alternating c \<and>
           length c = 2 * nat (L div 2) - 1"
proof -
  obtain ns i1 where n: "mapWith (\<lambda>_. randomGene Number rs) (buildArray (nat (L div 2))) i = (ns, i1)"
    by (cases "mapWith (\<lambda>_. randomGene Number rs) (buildArray (nat (L div 2))) i")
  obtain os i2 where o: "mapWith (\<lambda>_. randomGene Operator rs) (buildArray (nat (L div 2 - 1))) i1 = (os, i2)"
    by (cases "mapWith (\<lambda>_. randomGene Operator rs) (buildArray (nat (L div 2 - 1))) i1")
  have d: "1 \<le> L div 2" using assms by simp
  have ln: "length ns = nat (L div 2)"
    using mapWith_length [of "\<lambda>_. randomGene Number rs" "buildArray (nat (L div 2))" i] n
    by (simp add: buildArray_def)
  have lo: "length os = nat (L div 2 - 1)"
    using mapWith_length [of "\<lambda>_. randomGene Operator rs" "buildArray (nat (L div 2 - 1))" i1] o
    by (simp add: buildArray_def)
  have wn: "\<forall>g \<in> set ns. length g = 4"
  proof
    fix g assume "g \<in> set ns"
    then have g: "g \<in> set (fst (mapWith (\<lambda>_. randomGene Number rs) (buildArray (nat (L div 2))) i))"
      by (simp add: n)
    show "length g = 4"
      by (rule mapWith_all [where P = "\<lambda>g. length g = 4", OF _ g]) (rule randomGene_length)
  qed
  have wo: "\<forall>g \<in> set os. length g = 2"
  proof
    fix g assume "g \<in> set os"
    then have g: "g \<in> set (fst (mapWith (\<lambda>_. randomGene Operator rs)
                                 (buildArray (nat (L div 2 - 1))) i1))"
      by (simp add: o)
    show "length g = 2"
      by (rule mapWith_all [where P = "\<lambda>g. length g = 2", OF _ g]) (rule randomGene_length)
  qed
  have "length ns = Suc (length os)" using ln lo d by simp
  from interleave_alternating [OF this wn wo]
  have "alternating (concat (map (\<lambda>(a, b). [a, b]) (zip ns os)) @ [last ns])"
    and "length (concat (map (\<lambda>(a, b). [a, b]) (zip ns os)) @ [last ns]) = 2 * length os + 1"
    by simp_all
  moreover have "2 * length os + 1 = 2 * nat (L div 2) - 1" using lo d by simp
  moreover have "randomChromosome L rs i =
      Inr (concat (map (\<lambda>(a, b). [a, b]) (zip ns os)) @ [last ns], i2)"
    using d by (simp add: randomChromosome_def n o zip_arrays_zip)
  ultimately show ?thesis by simp
qed

text \<open>
  Claim C10. For an even requested length \<open>L\<close> of at least 2, \<open>randomChromosome\<close>
  returns, whatever is drawn, a chromosome of \<open>L - 1\<close> genes: four bits at the even
  indexes and two bits at the odd ones, so it begins and ends with a gene of four bits,
  with \<open>L div 2\<close> genes of four bits and \<open>L div 2 - 1\<close> genes of two bits.
\<close>

theorem randomChromosome_shape:
  assumes "even L" and "2 \<le> L"
  shows "\<exists>c i'. randomChromosome L rs i = Inr (c, i') \<and>
           int (length c) = L - 1 \<and>
           (\<forall>k < length c. length (c ! k) = (if even k then 4 else 2)) \<and>
           length (hd c) = 4 \<and> length (last c) = 4 \<and>
           int (length (filter (\<lambda>g. length g = 4) c)) = L div 2 \<and>
           int (length (filter (\<lambda>g. length g = 2) c)) = L div 2 - 1"
proof -
  obtain c i' where r: "randomChromosome L rs i = Inr (c, i')" and a: "alternating c"
    and l: "length c = 2 * nat (L div 2) - 1"
    using randomChromosome_alternating [OF assms(2)] by blast
  define h where "h = nat (L div 2)"
  have h1: "1 \<le> h" using assms(2) by (simp add: h_def)
  have L: "L = 2 * int h" using assms by (auto simp: h_def elim!: evenE)
  have lc: "length c = 2 * h - 1" using l by (simp add: h_def)
  have len: "int (length c) = L - 1" using lc h1 L by simp
  have od: "odd (length c)" using lc h1 by (cases h) simp_all
  have c4: "Suc (length c) div 2 = h" and c2: "length c div 2 = h - 1"
    using lc h1 by (cases h; simp)+
  have n4: "int (length (filter (\<lambda>g. length g = 4) c)) = L div 2"
    using alternating_counts [OF a] c4 L by simp
  have n2: "int (length (filter (\<lambda>g. length g = 2) c)) = L div 2 - 1"
    using alternating_counts [OF a] c2 L h1 by simp
  have nth: "\<forall>k < length c. length (c ! k) = (if even k then 4 else 2)"
    using alternating_nth [OF a] by blast
  show ?thesis
    using r len nth alternating_ends [OF a od] n4 n2 by blast
qed

theorem randomChromosome_shape_witness:
  "even (4 :: int) \<and> (2 :: int) \<le> 4 \<and>
   randomChromosome 4 (constDraws (1 / 2)) 0
     = Inr ([[B1, B1, B1, B1], [B1, B1], [B1, B1, B1, B1]], 10)"
  using randomChromosome_shape [of 4 "constDraws (1 / 2)" 0]
  by (simp add: randomChromosome_def buildArray_def zip_arrays_zip randomBit_def constDraws_def
      Let_def upt_rec)

section \<open>The shape of a cleaned chromosome\<close>

lemma isNumber_length: "isNumber g \<Longrightarrow> length g = 4"
  using isNumber_cases by fastforce

lemma geneValue_width4:
  assumes "length g = 4" and "geneValue g \<noteq> ''(junk)''"
  shows "isNumber g"
proof (rule ccontr)
  assume n: "\<not> isNumber g"
  have "\<not> isOperator g" using assms(1) by (simp add: isOperator_length)
  with n have "geneValue g = ''(junk)''" by (simp add: geneValue_def)
  with assms(2) show False by simp
qed

lemma pairs_of_alternating:
  "alternating c \<Longrightarrow> length p = 2 \<Longrightarrow> q \<in> set (pairsOf (p # c)) \<Longrightarrow> length q = 2 \<Longrightarrow>
     length (q ! 0) = 2 \<and> length (q ! 1) = 4"
proof (induction c arbitrary: p rule: alternating.induct)
  case 1
  then show ?case by simp
next
  case (2 g)
  then show ?case by auto
next
  case (3 g h r)
  have "q = [p, g] \<or> q \<in> set (pairsOf (h # r))" using "3.prems"(3) by simp
  then show ?case
  proof
    assume "q = [p, g]"
    then show ?thesis using "3.prems" by simp
  next
    assume "q \<in> set (pairsOf (h # r))"
    then show ?thesis using "3.IH" [of h] "3.prems" by simp
  qed
qed

lemma keptPairs_alternating:
  assumes "alternating c" and "q \<in> set (keptPairs ([B0, B0] # c))"
  shows "\<exists>a b. q = [a, b] \<and> isOperator a \<and> isNumber b"
proof -
  have l: "length q = 2" and v: "geneValue (q ! 1) \<noteq> ''(junk)''"
    and m: "q \<in> set (pairsOf ([B0, B0] # c))"
    using assms(2) by (simp_all add: keptPairs_def)
  obtain a b where q: "q = [a, b]" using l by (cases q; cases "tl q") auto
  have "length (q ! 0) = 2 \<and> length (q ! 1) = 4"
    using pairs_of_alternating [OF assms(1) _ m l] by simp
  then have "isOperator a" and "isNumber b"
    using v q by (simp_all add: isOperator_length geneValue_width4)
  with q show ?thesis by blast
qed

lemma validExpression_concat:
  "(\<And>q. q \<in> set K \<Longrightarrow> \<exists>a b. q = [a, b] \<and> isOperator a \<and> isNumber b) \<Longrightarrow>
     isNumber g \<Longrightarrow> validExpression (g # concat K)"
proof (induction K arbitrary: g)
  case Nil
  then show ?case by simp
next
  case (Cons q K)
  obtain a b where q: "q = [a, b]" and a: "isOperator a" and b: "isNumber b"
    using Cons.prems(1) [of q] by auto
  have "validExpression (b # concat K)" using Cons.prems(1) b by (intro Cons.IH) auto
  then show ?case using Cons.prems(2) a q by simp
qed

lemma validExpression_ends:
  "validExpression c \<Longrightarrow> isNumber (hd c) \<and> isNumber (last c)"
  by (induction c rule: validExpression.induct) auto

lemma cleanChromosome_valid:
  assumes "alternating c" and "cleanChromosome c \<noteq> []"
  shows "validExpression (cleanChromosome c)"
proof (cases "keptPairs ([B0, B0] # c)")
  case Nil
  then show ?thesis using assms(2) by (simp add: cleanChromosome_kept)
next
  case (Cons q K)
  obtain a b where q: "q = [a, b]" and b: "isNumber b"
    using keptPairs_alternating [OF assms(1), of q] Cons by auto
  have "\<And>q'. q' \<in> set K \<Longrightarrow> \<exists>a b. q' = [a, b] \<and> isOperator a \<and> isNumber b"
    using keptPairs_alternating [OF assms(1)] Cons by simp
  then have "validExpression (b # concat K)" using b by (rule validExpression_concat)
  then show ?thesis by (simp add: cleanChromosome_kept Cons q)
qed

lemma length_concat_filter: "length (concat (filter P xss)) \<le> length (concat xss)"
  by (induction xss) auto

lemma length_complete_pairs:
  "length (concat (filter (\<lambda>pair. length pair = 2) (pairsOf xs))) = 2 * (length xs div 2)"
  by (induction xs rule: pairsOf.induct) simp_all

lemma cleanChromosome_length:
  "length (cleanChromosome c) \<le> 2 * (Suc (length c) div 2) - 1"
proof -
  have "length (concat (keptPairs ([B0, B0] # c))) \<le> 2 * (length ([B0, B0] # c) div 2)"
    unfolding keptPairs_def
    using length_concat_filter [of "\<lambda>pair. geneValue (pair ! 1) \<noteq> ''(junk)''"
        "filter (\<lambda>pair. length pair = 2) (pairsOf ([B0, B0] # c))"]
      length_complete_pairs [of "[B0, B0] # c"]
    by simp
  then show ?thesis by (simp add: cleanChromosome_kept)
qed

lemma digitValue_simps:
  "digitValue CHR ''0'' = Some 0" "digitValue CHR ''1'' = Some 1"
  "digitValue CHR ''2'' = Some 2" "digitValue CHR ''3'' = Some 3"
  "digitValue CHR ''4'' = Some 4" "digitValue CHR ''5'' = Some 5"
  "digitValue CHR ''6'' = Some 6" "digitValue CHR ''7'' = Some 7"
  "digitValue CHR ''8'' = Some 8" "digitValue CHR ''9'' = Some 9"
  by (simp_all add: digitValue_def digitTable_def)

lemma isNumber_geneValue:
  assumes "isNumber g"
  shows "\<exists>dc v. geneValue g = [dc] \<and> digitValue dc = Some v"
proof -
  have "g \<in> set numberAlleles" using assms by (simp add: isNumber_iff)
  then have "\<exists>dc. geneValue g = [dc] \<and> dc \<in> set ''0123456789''"
    unfolding numberAlleles_def by (auto simp: geneValue_simps)
  then obtain dc where dc: "geneValue g = [dc]" and d: "dc \<in> set ''0123456789''"
    by blast
  have "digitValue dc \<noteq> None"
    using d by (auto simp: digitValue_simps)
  then show ?thesis using dc by auto
qed

lemma isOperator_geneValue:
  assumes "isOperator g"
  shows "\<exists>oc. geneValue g = [oc] \<and> isOperatorChar oc"
proof -
  have "g \<in> set operatorAlleles" using assms by (simp add: isOperator_iff)
  then have "geneValue g \<in> set [''+'', ''-'', ''*'', ''/'']"
    unfolding operatorAlleles_def by (auto simp: geneValue_simps)
  then consider "geneValue g = ''+''" | "geneValue g = ''-''" | "geneValue g = ''*''"
    | "geneValue g = ''/''"
    by auto
  then show ?thesis
    by cases (simp_all add: isOperatorChar_def)
qed

lemma validExpression_parses:
  "validExpression c \<Longrightarrow>
     \<exists>dc v ops tail. join '' '' (map geneValue c) = dc # tail \<and> digitValue dc = Some v \<and>
        parseRest tail = Some ops"
proof (induction c rule: validExpression.induct)
  case 1
  then show ?case by simp
next
  case (2 g)
  then have "isNumber g" by simp
  then obtain dc v where "geneValue g = [dc]" "digitValue dc = Some v"
    using isNumber_geneValue [of g] by blast
  then show ?case by simp
next
  case (3 g h r)
  have ig: "isNumber g" and ih: "isOperator h" and vr: "validExpression r"
    using "3.prems" by simp_all
  obtain dc v where g: "geneValue g = [dc]" "digitValue dc = Some v"
    using isNumber_geneValue [OF ig] by blast
  obtain oc where h: "geneValue h = [oc]" "isOperatorChar oc"
    using isOperator_geneValue [OF ih] by blast
  obtain dc' v' ops tail where r: "join '' '' (map geneValue r) = dc' # tail"
    "digitValue dc' = Some v'" "parseRest tail = Some ops"
    using "3.IH" [OF vr] by blast
  obtain r0 r' where rr: "r = r0 # r'" using vr by (cases r) auto
  have "join '' '' (map geneValue (g # h # r))
        = dc # CHR '' '' # oc # CHR '' '' # dc' # tail"
    using r(1) by (simp add: g h rr)
  moreover have "parseRest (CHR '' '' # oc # CHR '' '' # dc' # tail) = Some ((oc, v') # ops)"
    using h r by simp
  ultimately show ?case using g by blast
qed

lemma evaluateMath_valid:
  assumes "validExpression c"
  shows "\<exists>n. evaluateMath (join '' '' (map geneValue c)) = Inr n"
proof -
  obtain dc v ops tail where "join '' '' (map geneValue c) = dc # tail"
    "digitValue dc = Some v" "parseRest tail = Some ops"
    using validExpression_parses [OF assms] by blast
  then show ?thesis by (simp add: evaluateMath_def parseExpr_def)
qed

lemma evaluateMath_clean:
  assumes "alternating c"
  shows "\<exists>n. evaluateMath (join '' '' (map geneValue (cleanChromosome c))) = Inr n"
proof (cases "cleanChromosome c = []")
  case True
  then show ?thesis by (simp add: evaluateMath_def)
next
  case False
  then show ?thesis using cleanChromosome_valid [OF assms] evaluateMath_valid by blast
qed

lemma evaluateFitness_value:
  "evaluateMath (mathStrOf c) = Inr n \<Longrightarrow> evaluateFitness c t = Inr (Fin (fitnessOf n t))"
  by (cases n)
    (simp_all add: evaluateFitness_def mathStrOf_def isNaN_def js_sub_def
      fitnessOf_def abs_minus_commute)

lemma fitnessOf_range: "0 \<le> fitnessOf n t \<and> fitnessOf n t \<le> 1"
  by (cases n) (simp_all add: fitnessOf_def)

lemma fitnessOf_one: "fitnessOf n t = 1 \<longleftrightarrow> n = Fin t"
  by (cases n) (auto simp: fitnessOf_def)

lemma fitnessOf_zero: "fitnessOf n t = 0 \<longleftrightarrow> (\<forall>v. n \<noteq> Fin v)"
proof (cases n)
  case (Fin v)
  have "0 < \<bar>t - v\<bar> + 1" by simp
  then have "1 / (\<bar>t - v\<bar> + 1) \<noteq> 0" by simp
  then show ?thesis using Fin by (simp add: fitnessOf_def)
qed (simp_all add: fitnessOf_def)

lemma pair_aligned_length: "2 * (Suc n div 2) - 1 \<le> n"
  by (cases "even n") (auto elim!: evenE oddE)

text \<open>
  Claim C4, as amended. The chromosomes of a run alternate genes of four and of two bits,
  beginning with four bits: \<open>randomChromosome\<close> builds this shape, and crossover and
  mutation keep it (\<open>randomChromosome_alternating\<close>, \<open>crossover_alternating\<close>,
  \<open>mutate_alternating\<close>). For such a chromosome the cleaned chromosome is no longer than
  the pair-aligned input, which is the input without a trailing operator gene and has
  \<open>2 * (Suc (length c) div 2) - 1\<close> genes; when it is not empty it begins and ends with
  a digit gene and has the shape \<open>digit (operator digit)*\<close>; and its decoded form is an
  expression that evaluates. The bound on the length holds for every list of genes
  (\<open>cleanChromosome_length\<close>).
\<close>

theorem cleanChromosome_shape:
  assumes "alternating c"
  shows "length (cleanChromosome c) \<le> 2 * (Suc (length c) div 2) - 1 \<and>
         2 * (Suc (length c) div 2) - 1 \<le> length c \<and>
         (cleanChromosome c \<noteq> [] \<longrightarrow>
            isNumber (hd (cleanChromosome c)) \<and> isNumber (last (cleanChromosome c)) \<and>
            validExpression (cleanChromosome c)) \<and>
         (\<exists>n. evaluateMath (mathStrOf c) = Inr n)"
proof -
  have "cleanChromosome c \<noteq> [] \<longrightarrow>
          isNumber (hd (cleanChromosome c)) \<and> isNumber (last (cleanChromosome c)) \<and>
          validExpression (cleanChromosome c)"
    using cleanChromosome_valid [OF assms] validExpression_ends by blast
  moreover have "\<exists>n. evaluateMath (mathStrOf c) = Inr n"
    using evaluateMath_clean [OF assms] by (simp add: mathStrOf_def)
  ultimately show ?thesis
    using cleanChromosome_length [of c] pair_aligned_length [of "length c"] by blast
qed

theorem cleanChromosome_shape_witness:
  "alternating chrom1 \<and> length chrom1 = 11 \<and> length (cleanChromosome chrom1) = 9 \<and>
   isNumber (hd (cleanChromosome chrom1)) \<and> isNumber (last (cleanChromosome chrom1)) \<and>
   validExpression (cleanChromosome chrom1) \<and>
   evaluateMath (mathStrOf chrom1) = Inr (Fin 17)"
  using cleanChromosome_shape [of chrom1]
  by (simp add: chrom1_clean chrom1_mathStrOf chrom1_evaluateMath) (simp add: chrom1_def)

text \<open>
  The claim as the specification states it, for every chromosome, fails on a chromosome
  that does not alternate. The cleaner pairs the genes by position and tests the second
  gene of a pair against \<open>(junk)\<close> only, so an operator gene in a digit position is
  kept: the chromosome made of the single gene \<open>00\<close> is cleaned to itself, begins with
  an operator gene, and decodes to \<open>+\<close>, which does not evaluate.
\<close>

theorem cleanChromosome_keeps_operator:
  "cleanChromosome [[B0, B0]] = [[B0, B0]] \<and>
   \<not> isNumber (hd (cleanChromosome [[B0, B0]])) \<and>
   \<not> validExpression (cleanChromosome [[B0, B0]]) \<and>
   mathStrOf [[B0, B0]] = ''+'' \<and>
   evaluateMath (mathStrOf [[B0, B0]]) = Inl EvalError"
proof -
  have c: "cleanChromosome [[B0, B0]] = [[B0, B0]]"
    by (simp add: cleanChromosome_kept keptPairs_def geneValue_simps)
  have n: "\<not> isNumber [B0, B0]"
    by (simp add: isNumber_iff numberAlleles_def)
  have m: "mathStrOf [[B0, B0]] = ''+''"
    by (simp add: mathStrOf_def c geneValue_simps)
  have e: "evaluateMath ''+'' = Inl EvalError"
    by (simp add: evaluateMath_def parseExpr_def digitValue_def digitTable_def)
  show ?thesis by (simp add: c n m e)
qed

section \<open>The fitness function\<close>

text \<open>
  The fitness function of the program (util.ts): for a chromosome of the data model the
  expression evaluates to some \<open>n\<close>, which is not-a-number when the cleaned chromosome
  is empty; the fitness is \<open>1 / (|t - n| + 1)\<close> for a finite \<open>n\<close> and 0 otherwise
  (for minus infinity the quotient \<open>1 / Infinity\<close> is 0). It lies between 0 and 1, is
  1 exactly when \<open>n\<close> is the target, and is 0 exactly when \<open>n\<close> is not finite.
\<close>

lemma evaluateFitness_bounds:
  assumes "alternating c"
  shows "\<exists>n. evaluateMath (mathStrOf c) = Inr n \<and>
           (cleanChromosome c = [] \<longrightarrow> n = NaN) \<and>
           evaluateFitness c t = Inr (Fin (fitnessOf n t)) \<and>
           0 \<le> fitnessOf n t \<and> fitnessOf n t \<le> 1 \<and>
           (fitnessOf n t = 1 \<longleftrightarrow> n = Fin t) \<and>
           (fitnessOf n t = 0 \<longleftrightarrow> (\<forall>v. n \<noteq> Fin v))"
proof -
  obtain n where n: "evaluateMath (mathStrOf c) = Inr n"
    using evaluateMath_clean [OF assms] by (auto simp: mathStrOf_def)
  have "cleanChromosome c = [] \<longrightarrow> n = NaN"
    using n by (auto simp: mathStrOf_def evaluateMath_def)
  then show ?thesis
    using n evaluateFitness_value [OF n] fitnessOf_range fitnessOf_one fitnessOf_zero by blast
qed

lemma chrom43_clean: "cleanChromosome chrom43 = chrom43"
  by (simp add: cleanChromosome_kept keptPairs_def chrom43_def geneValue_simps)

lemma chrom43_clean_linear: "cleanChromosome_linear chrom43 = Inr chrom43"
  by (simp add: cleanChromosome_linear_def chunksOf_2 chrom43_def geneValue_simps)

lemma chrom43_phenotype: "join '' '' (map geneValue chrom43) = ''9 * 5 - 2''"
  by (simp add: chrom43_def geneValue_simps)

lemma chrom43_evaluateMath: "evaluateMath ''9 * 5 - 2'' = Inr (Fin 43)"
  by (simp add: evaluateMath_def parseExpr_def digitValue_simps isOperatorChar_def js_sub_def)

lemma junk_clean_linear: "cleanChromosome_linear [[B1, B1, B1, B1]] = Inl TypeError"
  by (simp add: cleanChromosome_linear_def chunksOf_2 geneValue_junk4)

text \<open>
  Claim C1, at the failing input. The fitness function of the walkthrough computes
  \<open>1 / |target - n + 1|\<close>. The chromosome \<open>9 * 5 - 2\<close> evaluates to 43; against the
  target 42 the divisor is \<open>|42 - 43 + 1| = 0\<close> and the fitness is infinite, outside
  \<open>[0, 1]\<close>, where the fitness function of the program returns \<open>1 / (|42 - 43| + 1)\<close>,
  which is 1/2. On a chromosome that cleans to nothing the walkthrough raises a TypeError
  (its cleaner reduces an empty array without an initial value) instead of returning 0.
\<close>

theorem evaluateFitness_linear_unbounded:
  "mathStrOf chrom43 = ''9 * 5 - 2'' \<and>
   evaluateMath (mathStrOf chrom43) = Inr (Fin 43) \<and>
   evaluateFitness_linear chrom43 42 = Inr PInf \<and>
   evaluateFitness chrom43 42 = Inr (Fin (1 / 2)) \<and>
   evaluateFitness_linear [[B1, B1, B1, B1]] 42 = Inl TypeError"
  by (simp add: mathStrOf_def evaluateFitness_def evaluateFitness_linear_def
      chrom43_clean chrom43_clean_linear chrom43_phenotype chrom43_evaluateMath
      junk_clean_linear isNaN_def js_sub_def)

section \<open>The run and its configuration\<close>

declare generationalStep.simps [simp del]

lemma alternating_widths:
  assumes "alternating x" and "alternating y" and "length x = length y"
  shows "map length x = map length y"
proof (rule nth_equalityI)
  show "length (map length x) = length (map length y)" using assms(3) by simp
next
  fix k assume "k < length (map length x)"
  then have kx: "k < length x" and ky: "k < length y" using assms(3) by simp_all
  show "map length x ! k = map length y ! k"
    using alternating_nth [OF assms(1) kx] alternating_nth [OF assms(2) ky] kx ky by simp
qed

lemma alternating_altWidths: "alternating c = altWidths (map length c)"
  by (induction c rule: alternating.induct) simp_all

lemma alternating_same_widths:
  "map length c' = map length c \<Longrightarrow> alternating c \<Longrightarrow> alternating c'"
  by (simp add: alternating_altWidths)

lemma mapWith_map:
  "(\<And>x j. h (fst (f x j)) = h' x) \<Longrightarrow> map h (fst (mapWith f xs i)) = map h' xs"
proof (induction xs arbitrary: i)
  case Nil
  show ?case by simp
next
  case (Cons x xs)
  obtain y i1 where f: "f x i = (y, i1)" by (cases "f x i")
  obtain ys i2 where m: "mapWith f xs i1 = (ys, i2)" by (cases "mapWith f xs i1")
  have "h y = h' x" using Cons.prems [of x i] f by simp
  moreover have "map h ys = map h' xs" using Cons.IH [of i1] Cons.prems m by simp
  ultimately show ?case by (simp add: f m)
qed

lemma mutateGene_length: "length (fst (mutateGene r rs g i)) = length g"
proof (cases "isNumber g")
  case True
  then show ?thesis
    using isNumber_length [OF True]
    by (simp add: mutateGene_def mutateBit_def Let_def)
next
  case False
  then show ?thesis
    by (simp add: mutateGene_def mutateBit_def Let_def isOperator_length)
qed

lemma mutate_alternating:
  assumes "alternating c"
  shows "alternating (fst (mutate c r rs i)) \<and> length (fst (mutate c r rs i)) = length c"
proof -
  have w: "map length (fst (mutate c r rs i)) = map length c"
    unfolding mutate_def by (rule mapWith_map) (rule mutateGene_length)
  then have "alternating (fst (mutate c r rs i))"
    using assms by (rule alternating_same_widths)
  moreover have "length (fst (mutate c r rs i)) = length c"
    using w by (rule map_eq_imp_length_eq)
  ultimately show ?thesis by simp
qed

lemma crossover_alternating:
  assumes "alternating x" and "alternating y" and "length x = length y"
    and "crossover x y r rs i = ((a, b), i')"
  shows "alternating a \<and> alternating b \<and> length a = length x \<and> length b = length x"
proof -
  have w: "map length x = map length y" using assms(1-3) by (rule alternating_widths)
  have mix1: "map length (take p x @ drop p y) = map length x" for p
    by (simp add: take_map [symmetric] drop_map [symmetric] w [symmetric])
  have mix2: "map length (take p y @ drop p x) = map length x" for p
    by (simp add: take_map [symmetric] drop_map [symmetric] w)
  have "map length a = map length x \<and> map length b = map length x"
    using assms(4) mix1 mix2 w unfolding crossover_def Let_def
    by (auto split: if_splits)
  then show ?thesis
    using assms(1) alternating_same_widths map_eq_imp_length_eq by blast
qed

lemma rouletteWheelSelection_member:
  assumes "population \<noteq> []"
  shows "\<exists>p. rouletteWheelSelection population rs i = (Some p, Suc i) \<and> p \<in> set population"
proof (cases "find (\<lambda>(_, cf). js_ge cf (js_mul (Fin (rs i)) (sum_array (map fitness population))))
          (zip population (scan (\<lambda>x y. js_add x y) (map fitness population ! 0)
             (map fitness population)))")
  case None
  have "population ! (length population - 1) \<in> set population" using assms by simp
  then show ?thesis
    using None assms by (simp add: rouletteWheelSelection_def Let_def zip_arrays_zip)
next
  case (Some pc)
  obtain p cf where pc: "pc = (p, cf)" by (cases pc)
  have "(p, cf) \<in> set (zip population (scan (\<lambda>x y. js_add x y) (map fitness population ! 0)
             (map fitness population)))"
    using Some pc by (auto simp: find_Some_iff in_set_conv_nth)
  then have "p \<in> set population" by (rule set_zip_leftD)
  then show ?thesis
    using Some pc assms by (simp add: rouletteWheelSelection_def Let_def zip_arrays_zip)
qed

lemma evaluateFitness_alternating:
  assumes "alternating c"
  shows "\<exists>f. evaluateFitness c t = Inr f"
proof -
  obtain n where "evaluateMath (mathStrOf c) = Inr n"
    using evaluateMath_clean [OF assms] by (auto simp: mathStrOf_def)
  then show ?thesis using evaluateFitness_value by blast
qed

lemma scorePopulation_alternating:
  "(\<And>c. c \<in> set pop \<Longrightarrow> alternating c) \<Longrightarrow>
     \<exists>orgs. scorePopulation pop t = Inr orgs \<and> map chromosome orgs = pop"
proof (induction pop)
  case Nil
  show ?case by simp
next
  case (Cons c pop)
  obtain f where f: "evaluateFitness c t = Inr f"
    using evaluateFitness_alternating [of c t] Cons.prems by auto
  obtain orgs where o: "scorePopulation pop t = Inr orgs" "map chromosome orgs = pop"
    using Cons.IH Cons.prems by auto
  show ?case by (simp add: f o)
qed

lemma reproduce_wellFormed:
  assumes "orgs \<noteq> []" and "\<And>p. p \<in> set orgs \<Longrightarrow> wellFormed n (chromosome p)"
  shows "\<exists>a b i'. reproduce orgs cr mr rs i = Inr ((a, b), i') \<and> wellFormed n a \<and> wellFormed n b"
proof -
  obtain p1 where s1: "rouletteWheelSelection orgs rs i = (Some p1, Suc i)" and m1: "p1 \<in> set orgs"
    using rouletteWheelSelection_member [OF assms(1)] by blast
  obtain p2 where s2: "rouletteWheelSelection orgs rs (Suc i) = (Some p2, Suc (Suc i))"
    and m2: "p2 \<in> set orgs"
    using rouletteWheelSelection_member [OF assms(1)] by blast
  obtain a0 b0 i3 where x: "crossover (chromosome p1) (chromosome p2) cr rs (Suc (Suc i)) = ((a0, b0), i3)"
    by (cases "crossover (chromosome p1) (chromosome p2) cr rs (Suc (Suc i))") auto
  obtain a i4 where ma: "mutate a0 mr rs i3 = (a, i4)" by (cases "mutate a0 mr rs i3")
  obtain b i5 where mb: "mutate b0 mr rs i4 = (b, i5)" by (cases "mutate b0 mr rs i4")
  have w1: "alternating (chromosome p1)" "length (chromosome p1) = n"
    and w2: "alternating (chromosome p2)" "length (chromosome p2) = n"
    using assms(2) m1 m2 by (simp_all add: wellFormed_def)
  have "length (chromosome p1) = length (chromosome p2)" using w1 w2 by simp
  from crossover_alternating [OF w1(1) w2(1) this x]
  have c: "alternating a0" "alternating b0" "length a0 = n" "length b0 = n"
    using w1 by simp_all
  have "wellFormed n a"
    using mutate_alternating [OF c(1), of mr rs i3] c(3) ma by (simp add: wellFormed_def)
  moreover have "wellFormed n b"
    using mutate_alternating [OF c(2), of mr rs i4] c(4) mb by (simp add: wellFormed_def)
  moreover have "reproduce orgs cr mr rs i = Inr ((a, b), i5)"
    by (simp add: reproduce_def s1 s2 x ma mb)
  ultimately show ?thesis by blast
qed

lemma reproduceAll_wellFormed:
  assumes "orgs \<noteq> []" and "\<And>p. p \<in> set orgs \<Longrightarrow> wellFormed n (chromosome p)"
  shows "\<exists>cs i'. reproduceAll k orgs cr mr rs i = Inr (cs, i') \<and> length cs = 2 * k \<and>
           (\<forall>c \<in> set cs. wellFormed n c)"
proof (induction k arbitrary: i)
  case 0
  show ?case by simp
next
  case (Suc k)
  obtain a b i1 where r: "reproduce orgs cr mr rs i = Inr ((a, b), i1)"
    and w: "wellFormed n a" "wellFormed n b"
    using reproduce_wellFormed [OF assms, of cr mr rs i] by blast
  obtain cs i2 where rest: "reproduceAll k orgs cr mr rs i1 = Inr (cs, i2)" "length cs = 2 * k"
    "\<forall>c \<in> set cs. wellFormed n c"
    using Suc [of i1] by blast
  show ?case using w rest by (simp add: r)
qed

lemma generationalStep_wellFormed:
  assumes "2 \<le> ps"
  shows "pop \<noteq> [] \<Longrightarrow> (\<And>c. c \<in> set pop \<Longrightarrow> wellFormed n c) \<Longrightarrow>
     \<exists>pop' i'. generationalStep ps cr mr gl t rs pop g i = Inr (pop', i') \<and> pop' \<noteq> [] \<and>
        (\<forall>c \<in> set pop'. wellFormed n c) \<and> (gl \<le> g \<longrightarrow> pop' = pop) \<and>
        (g < gl \<longrightarrow> length pop' = 2 * nat (ps div 2))"
proof (induction "nat (gl - g)" arbitrary: pop g i)
  case 0
  then have "gl \<le> g" by simp
  then show ?case using 0 by (subst generationalStep.simps) simp
next
  case (Suc k)
  have lt: "g < gl" and k: "k = nat (gl - (g + 1))" using Suc(2) by simp_all
  have alt: "\<And>c. c \<in> set pop \<Longrightarrow> alternating c" using Suc.prems(2) by (simp add: wellFormed_def)
  obtain orgs where sc: "scorePopulation pop t = Inr orgs" and oc: "map chromosome orgs = pop"
    using scorePopulation_alternating [of pop t] alt by blast
  have ne: "orgs \<noteq> []" using oc Suc.prems(1) by auto
  have ow: "\<And>p. p \<in> set orgs \<Longrightarrow> wellFormed n (chromosome p)"
  proof -
    fix p assume "p \<in> set orgs"
    then have "chromosome p \<in> set (map chromosome orgs)" by simp
    then show "wellFormed n (chromosome p)" using oc Suc.prems(2) by simp
  qed
  obtain cs i1 where ra: "reproduceAll (nat (ps div 2)) orgs cr mr rs i = Inr (cs, i1)"
    and len: "length cs = 2 * nat (ps div 2)" and cw: "\<forall>c \<in> set cs. wellFormed n c"
    using reproduceAll_wellFormed [OF ne ow, of "nat (ps div 2)" cr mr rs i] by blast
  have "1 \<le> ps div 2" using assms by simp
  then have cne: "cs \<noteq> []" using len by auto
  obtain pop' i' where
    st: "generationalStep ps cr mr gl t rs cs (g + 1) i1 = Inr (pop', i')" and
    p1: "pop' \<noteq> []" and p2: "\<forall>c \<in> set pop'. wellFormed n c" and
    p3: "gl \<le> g + 1 \<longrightarrow> pop' = cs" and
    p4: "g + 1 < gl \<longrightarrow> length pop' = 2 * nat (ps div 2)"
    using Suc(1) [OF k cne, of i1] cw by blast
  have "length pop' = 2 * nat (ps div 2)"
    using p3 p4 len by (cases "gl \<le> g + 1") auto
  moreover have "generationalStep ps cr mr gl t rs pop g i = Inr (pop', i')"
    using lt by (subst generationalStep.simps) (simp add: sc ra st)
  ultimately show ?case using p1 p2 lt by simp
qed

lemma initialPopulation_wellFormed:
  assumes "2 \<le> L"
  shows "\<exists>pop i'. initialPopulation m L rs i = Inr (pop, i') \<and> length pop = m \<and>
           (\<forall>c \<in> set pop. wellFormed (2 * nat (L div 2) - 1) c)"
proof (induction m arbitrary: i)
  case 0
  show ?case by simp
next
  case (Suc m)
  obtain c i1 where r: "randomChromosome L rs i = Inr (c, i1)" and a: "alternating c"
    and l: "length c = 2 * nat (L div 2) - 1"
    using randomChromosome_alternating [OF assms, of rs i] by blast
  obtain pop i2 where p: "initialPopulation m L rs i1 = Inr (pop, i2)" "length pop = m"
    "\<forall>c \<in> set pop. wellFormed (2 * nat (L div 2) - 1) c"
    using Suc [of i1] by blast
  show ?case using a l p by (simp add: r wellFormed_def)
qed

lemma randomChromosome_too_short: "L < 2 \<Longrightarrow> randomChromosome L rs i = Inl RangeError"
  by (simp add: randomChromosome_def split: prod.splits)

lemma initialPopulation_too_short:
  "L < 2 \<Longrightarrow> initialPopulation (Suc m) L rs i = Inl RangeError"
  by (simp add: randomChromosome_too_short)

lemma runAlgorithm_accepts:
  assumes "2 \<le> ps" and "2 \<le> L"
  shows "\<exists>finalChroms i winner.
           finalChromPopulation ps cr mr gl L t rs = Inr (finalChroms, i) \<and>
           (0 < gl \<longrightarrow> length finalChroms = 2 * nat (ps div 2)) \<and>
           runAlgorithm ps cr mr gl L t rs = Inr winner"
proof -
  let ?n = "2 * nat (L div 2) - 1"
  obtain pop0 i0 where ip: "initialPopulation (nat ps) L rs 0 = Inr (pop0, i0)"
    and l0: "length pop0 = nat ps" and w0: "\<forall>c \<in> set pop0. wellFormed ?n c"
    using initialPopulation_wellFormed [OF assms(2), of "nat ps" rs 0] by blast
  have ne0: "pop0 \<noteq> []" using l0 assms(1) by auto
  obtain pop' i' where
    st: "generationalStep ps cr mr gl t rs pop0 0 i0 = Inr (pop', i')" and
    p1: "pop' \<noteq> []" and p2: "\<forall>c \<in> set pop'. wellFormed ?n c" and
    p4: "0 < gl \<longrightarrow> length pop' = 2 * nat (ps div 2)"
    using generationalStep_wellFormed [OF assms(1) ne0, of ?n cr mr gl t rs 0 i0] w0 by blast
  have fin: "finalChromPopulation ps cr mr gl L t rs = Inr (pop', i')"
    using assms(1) by (simp add: finalChromPopulation_def ip st)
  have "\<And>c. c \<in> set pop' \<Longrightarrow> alternating c" using p2 by (simp add: wellFormed_def)
  then obtain orgs where sc: "scorePopulation pop' t = Inr orgs" and oc: "map chromosome orgs = pop'"
    using scorePopulation_alternating [of pop' t] by blast
  have "orgs \<noteq> []" using oc p1 by auto
  then obtain p ps' where "orgs = p # ps'" by (cases orgs) auto
  then have "\<exists>winner. runAlgorithm ps cr mr gl L t rs = Inr winner"
    by (simp add: runAlgorithm_def fin sc)
  then show ?thesis using fin p4 by blast
qed

lemma runAlgorithm_too_short:
  assumes "1 \<le> ps" and "L < 2"
  shows "runAlgorithm ps cr mr gl L t rs = Inl RangeError"
proof -
  obtain m where "nat ps = Suc m" using assms(1) by (cases "nat ps") auto
  then have "initialPopulation (nat ps) L rs 0 = Inl RangeError"
    using initialPopulation_too_short [OF assms(2)] by simp
  then show ?thesis using assms(1) by (simp add: runAlgorithm_def finalChromPopulation_def)
qed

lemma oddRun_randomChromosome:
  "randomChromosome 4 oddRunDraws i = Inr (zeroChrom, i + 10)"
  by (simp add: randomChromosome_def buildArray_def zip_arrays_zip randomBit_def constDraws_def
      oddRunDraws_def zeroChrom_def Let_def upt_rec)

lemma oddRun_initial:
  "initialPopulation 3 4 oddRunDraws 0 = Inr ([zeroChrom, zeroChrom, zeroChrom], 30)"
  by (simp add: numeral_3_eq_3 oddRun_randomChromosome)

lemma oddRun_fitness: "evaluateFitness zeroChrom 42 = Inr (Fin (1 / 43))"
  by (simp add: zeroChrom_def evaluateFitness_def cleanChromosome_kept keptPairs_def
      geneValue_simps evaluateMath_def parseExpr_def digitValue_def digitTable_def
      isOperatorChar_def isNaN_def js_sub_def)

lemma oddRun_score:
  "scorePopulation [zeroChrom, zeroChrom, zeroChrom] 42 =
     Inr [\<lparr>chromosome = zeroChrom, fitness = Fin (1 / 43)\<rparr>,
          \<lparr>chromosome = zeroChrom, fitness = Fin (1 / 43)\<rparr>,
          \<lparr>chromosome = zeroChrom, fitness = Fin (1 / 43)\<rparr>]"
  "scorePopulation [zeroChrom, zeroChrom] 42 =
     Inr [\<lparr>chromosome = zeroChrom, fitness = Fin (1 / 43)\<rparr>,
          \<lparr>chromosome = zeroChrom, fitness = Fin (1 / 43)\<rparr>]"
  by (simp_all add: oddRun_fitness)

lemma oddRun_select:
  "rouletteWheelSelection
     [\<lparr>chromosome = zeroChrom, fitness = Fin (1 / 43)\<rparr>,
      \<lparr>chromosome = zeroChrom, fitness = Fin (1 / 43)\<rparr>,
      \<lparr>chromosome = zeroChrom, fitness = Fin (1 / 43)\<rparr>] oddRunDraws i
   = (Some \<lparr>chromosome = zeroChrom, fitness = Fin (1 / 43)\<rparr>, Suc i)"
  by (simp add: rouletteWheelSelection_def Let_def zip_arrays_zip scan_def sum_array_def
      constDraws_def oddRunDraws_def)

lemma oddRun_crossover:
  "crossover zeroChrom zeroChrom (3 / 5) oddRunDraws i = ((zeroChrom, zeroChrom), Suc (Suc i))"
  by (simp add: crossover_def constDraws_def oddRunDraws_def zeroChrom_def)

lemma oddRun_mutate:
  "mutate zeroChrom (1 / 20) oddRunDraws i = (zeroChrom, i + 10)"
  by (simp add: mutate_def mutateGene_def mutateBit_def zeroChrom_def isNumber_iff
      isOperator_iff numberAlleles_def operatorAlleles_def constDraws_def oddRunDraws_def)

lemma oddRun_reproduce:
  "reproduce
     [\<lparr>chromosome = zeroChrom, fitness = Fin (1 / 43)\<rparr>,
      \<lparr>chromosome = zeroChrom, fitness = Fin (1 / 43)\<rparr>,
      \<lparr>chromosome = zeroChrom, fitness = Fin (1 / 43)\<rparr>] (3 / 5) (1 / 20) oddRunDraws 30
   = Inr ((zeroChrom, zeroChrom), 54)"
  by (simp add: reproduce_def oddRun_select oddRun_crossover oddRun_mutate)

lemma oddRun_last:
  "generationalStep 3 (3 / 5) (1 / 20) 1 42 oddRunDraws [zeroChrom, zeroChrom] 1 54
     = Inr ([zeroChrom, zeroChrom], 54)"
  by (subst generationalStep.simps) simp

lemma oddRun_step:
  "generationalStep 3 (3 / 5) (1 / 20) 1 42 oddRunDraws [zeroChrom, zeroChrom, zeroChrom] 0 30
     = Inr ([zeroChrom, zeroChrom], 54)"
proof -
  have n: "nat (3 div 2) = Suc 0" by simp
  show ?thesis
    by (subst generationalStep.simps)
      (simp add: n oddRun_fitness oddRun_reproduce oddRun_last del: One_nat_def)
qed

lemma oddRun_final:
  "finalChromPopulation 3 (3 / 5) (1 / 20) 1 4 42 oddRunDraws
     = Inr ([zeroChrom, zeroChrom], 54)"
  by (simp add: finalChromPopulation_def oddRun_initial oddRun_step)

lemma oddRun_winner:
  "runAlgorithm 3 (3 / 5) (1 / 20) 1 4 42 oddRunDraws
     = Inr \<lparr>chromosome = zeroChrom, fitness = Fin (1 / 43)\<rparr>"
  by (simp add: runAlgorithm_def oddRun_final oddRun_fitness js_gt_def)

text \<open>
  Claim C9, as amended. The run checks nothing in its configuration. With at least two
  organisms and a requested chromosome length of at least 2 it returns a winner, whatever
  the rates, the generation limit, the target and the draws are, and whether the
  population size is odd or even; after at least one generation the final population
  has \<open>2 * (populationSize div 2)\<close> chromosomes, one fewer than an odd population size.
  With a requested length below 2 and at least one organism the run ends in the
  RangeError that building the first random chromosome raises.
\<close>

theorem runAlgorithm_no_validation:
  "(2 \<le> ps \<longrightarrow> 2 \<le> L \<longrightarrow>
      (\<exists>finalChroms i winner.
          finalChromPopulation ps cr mr gl L t rs = Inr (finalChroms, i) \<and>
          (0 < gl \<longrightarrow> length finalChroms = 2 * nat (ps div 2)) \<and>
          runAlgorithm ps cr mr gl L t rs = Inr winner)) \<and>
   (1 \<le> ps \<longrightarrow> L < 2 \<longrightarrow> runAlgorithm ps cr mr gl L t rs = Inl RangeError)"
  using runAlgorithm_accepts [of ps L cr mr gl t rs] runAlgorithm_too_short [of ps L cr mr gl t rs]
  by blast

theorem runAlgorithm_no_validation_witness:
  "(2 :: int) \<le> 3 \<and> (2 :: int) \<le> 4 \<and> (0 :: int) < 1 \<and>
   finalChromPopulation 3 (3 / 5) (1 / 20) 1 4 42 oddRunDraws
     = Inr ([zeroChrom, zeroChrom], 54) \<and>
   length [zeroChrom, zeroChrom] = 2 * nat (3 div 2) \<and>
   runAlgorithm 3 (3 / 5) (1 / 20) 1 4 42 oddRunDraws
     = Inr \<lparr>chromosome = zeroChrom, fitness = Fin (1 / 43)\<rparr> \<and>
   (1 :: int) \<le> 3 \<and> (1 :: int) < 2 \<and>
   runAlgorithm 3 (3 / 5) (1 / 20) 1 1 42 oddRunDraws = Inl RangeError"
  using runAlgorithm_no_validation [of 3 4 "3 / 5" "1 / 20" 1 42 oddRunDraws]
    runAlgorithm_no_validation [of 3 1 "3 / 5" "1 / 20" 1 42 oddRunDraws]
  by (simp add: oddRun_final oddRun_winner)

text \<open>
  The claim as the specification states it fails on a population size of 3: the run is
  not refused, one generation later the population has two chromosomes, and a winner is
  returned.
\<close>

theorem odd_population_accepted:
  "finalChromPopulation 3 (3 / 5) (1 / 20) 1 4 42 oddRunDraws
     = Inr ([zeroChrom, zeroChrom], 54) \<and>
   runAlgorithm 3 (3 / 5) (1 / 20) 1 4 42 oddRunDraws
     = Inr \<lparr>chromosome = zeroChrom, fitness = Fin (1 / 43)\<rparr>"
  by (simp add: runAlgorithm_def oddRun_final oddRun_fitness js_gt_def)

end
